theory Spec2Isabelle
  imports Complex_Main
begin

unbundle bit_operations_syntax

section \<open>JavaScript strings\<close>

text \<open>
  Source strings are modelled as \<^typ>\<open>string\<close>, one \<^typ>\<open>char\<close> per UTF-16 code unit;
  the model covers ASCII text, where \<open>length\<close> is JavaScript's \<open>.length\<close> and the
  UTF-8 encoding hashed by \<open>createHash("sha256").update\<close> is the string itself.
\<close>

definition isWhitespace :: "char \<Rightarrow> bool" where
  "isWhitespace c = (c \<in> set [CHR 0x09, CHR 0x0A, CHR 0x0B, CHR 0x0C, CHR 0x0D, CHR 0x20])"

definition isWordChar :: "char \<Rightarrow> bool" where
  "isWordChar c =
     (c \<in> set ''ABCDEFGHIJKLMNOPQRSTUVWXYZabcdefghijklmnopqrstuvwxyz0123456789_'')"

text \<open>\<open>String.prototype.trim\<close>\<close>

definition trim :: "string \<Rightarrow> string" where
  "trim s = rev (dropWhile isWhitespace (rev (dropWhile isWhitespace s)))"

text \<open>\<open>String.prototype.toLowerCase\<close> on ASCII\<close>

definition lowerChar :: "char \<Rightarrow> char" where
  "lowerChar c =
     (case map_of (zip ''ABCDEFGHIJKLMNOPQRSTUVWXYZ'' ''abcdefghijklmnopqrstuvwxyz'') c of
        Some d \<Rightarrow> d | None \<Rightarrow> c)"

definition toLowerCase :: "string \<Rightarrow> string" where
  "toLowerCase s = map lowerChar s"

text \<open>\<open>String.prototype.startsWith\<close> and \<open>String.prototype.includes\<close>\<close>

fun startsWith :: "string \<Rightarrow> string \<Rightarrow> bool" where
  "startsWith s [] = True"
| "startsWith [] (p # ps) = False"
| "startsWith (c # cs) (p # ps) = (c = p \<and> startsWith cs ps)"

fun includesStr :: "string \<Rightarrow> string \<Rightarrow> bool" where
  "includesStr [] sub = (sub = [])"
| "includesStr (c # cs) sub = (startsWith (c # cs) sub \<or> includesStr cs sub)"

text \<open>\<open>s.split(sep)\<close> for a one-character separator, and \<open>xs.join(sep)\<close>\<close>

fun splitOn :: "char \<Rightarrow> string \<Rightarrow> string list" where
  "splitOn sep [] = [[]]"
| "splitOn sep (c # cs) =
     (if c = sep then [] # splitOn sep cs
      else (case splitOn sep cs of [] \<Rightarrow> [[c]] | l # ls \<Rightarrow> (c # l) # ls))"

fun joinWith :: "string \<Rightarrow> string list \<Rightarrow> string" where
  "joinWith sep [] = []"
| "joinWith sep [x] = x"
| "joinWith sep (x # y # ys) = x @ sep @ joinWith sep (y # ys)"

text \<open>Decimal rendering of a non-negative integer, as in a template literal.\<close>

definition digitChar :: "nat \<Rightarrow> char" where
  "digitChar d = ''0123456789'' ! d"

fun decimal :: "nat \<Rightarrow> string" where
  "decimal n = (if n < 10 then [digitChar n] else decimal (n div 10) @ [digitChar (n mod 10)])"

declare decimal.simps [simp del]

text \<open>
  Node's \<open>path.extname\<close> on POSIX paths that do not end in a separator: the part of the
  last path segment from its last dot on, empty when the segment has no dot, when its
  only dot is its first character, or when the segment is \<open>..\<close>.
\<close>

definition basename :: "string \<Rightarrow> string" where
  "basename p = rev (takeWhile (\<lambda>c. c \<noteq> CHR ''/'') (rev p))"

definition extname :: "string \<Rightarrow> string" where
  "extname p =
     (let b = basename p; e = rev (takeWhile (\<lambda>c. c \<noteq> CHR ''.'') (rev b))
      in if CHR ''.'' \<notin> set b \<or> length e + 1 = length b \<or> b = ''..'' then []
         else CHR ''.'' # e)"

section \<open>SHA-256 (FIPS 180-4), the digest behind \<open>createHash("sha256")\<close>\<close>

text \<open>
  The round constants and the initial hash value are written in decimal.
  32-bit words are natural numbers below \<open>2^32\<close>; every addition is reduced modulo
  \<open>2^32\<close>, and the complement of \<open>x\<close> is \<open>2^32 - 1 - x\<close>.
\<close>

type_synonym u32 = nat

definition add32 :: "u32 \<Rightarrow> u32 \<Rightarrow> u32" where
  "add32 x y = (x + y) mod 4294967296"

definition shr :: "nat \<Rightarrow> u32 \<Rightarrow> u32" where
  "shr n x = x div 2 ^ n"

definition rotr :: "nat \<Rightarrow> u32 \<Rightarrow> u32" where
  "rotr n x = x div 2 ^ n + (x mod 2 ^ n) * 2 ^ (32 - n)"

definition K256 :: "u32 list" where
  "K256 =
    [1116352408, 1899447441, 3049323471, 3921009573, 961987163, 1508970993,
     2453635748, 2870763221, 3624381080, 310598401, 607225278, 1426881987,
     1925078388, 2162078206, 2614888103, 3248222580, 3835390401, 4022224774,
     264347078, 604807628, 770255983, 1249150122, 1555081692, 1996064986,
     2554220882, 2821834349, 2952996808, 3210313671, 3336571891, 3584528711,
     113926993, 338241895, 666307205, 773529912, 1294757372, 1396182291,
     1695183700, 1986661051, 2177026350, 2456956037, 2730485921, 2820302411,
     3259730800, 3345764771, 3516065817, 3600352804, 4094571909, 275423344,
     430227734, 506948616, 659060556, 883997877, 958139571, 1322822218,
     1537002063, 1747873779, 1955562222, 2024104815, 2227730452, 2361852424,
     2428436474, 2756734187, 3204031479, 3329325298]"

datatype hstate = HState u32 u32 u32 u32 u32 u32 u32 u32

definition H0 :: hstate where
  "H0 = HState 1779033703 3144134277 1013904242 2773480762
               1359893119 2600822924 528734635 1541459225"

definition Ch :: "u32 \<Rightarrow> u32 \<Rightarrow> u32 \<Rightarrow> u32" where
  "Ch x y z = (x AND y) XOR ((4294967295 - x) AND z)"

definition Maj :: "u32 \<Rightarrow> u32 \<Rightarrow> u32 \<Rightarrow> u32" where
  "Maj x y z = (x AND y) XOR (x AND z) XOR (y AND z)"

definition bsig0 :: "u32 \<Rightarrow> u32" where
  "bsig0 x = rotr 2 x XOR rotr 13 x XOR rotr 22 x"

definition bsig1 :: "u32 \<Rightarrow> u32" where
  "bsig1 x = rotr 6 x XOR rotr 11 x XOR rotr 25 x"

definition ssig0 :: "u32 \<Rightarrow> u32" where
  "ssig0 x = rotr 7 x XOR rotr 18 x XOR shr 3 x"

definition ssig1 :: "u32 \<Rightarrow> u32" where
  "ssig1 x = rotr 17 x XOR rotr 19 x XOR shr 10 x"

text \<open>
  The message schedule, built most recent word first: with \<open>W\<^sub>t\<close> the next word,
  \<open>ws ! 1 = W\<^sub>t\<^sub>-\<^sub>2\<close>, \<open>ws ! 6 = W\<^sub>t\<^sub>-\<^sub>7\<close>, \<open>ws ! 14 = W\<^sub>t\<^sub>-\<^sub>1\<^sub>5\<close> and \<open>ws ! 15 = W\<^sub>t\<^sub>-\<^sub>1\<^sub>6\<close>.
\<close>

fun schedule :: "nat \<Rightarrow> u32 list \<Rightarrow> u32 list" where
  "schedule n ws =
     (if n = 0 then rev ws
      else schedule (n - 1)
             (add32 (add32 (add32 (ssig1 (ws ! 1)) (ws ! 6)) (ssig0 (ws ! 14))) (ws ! 15) # ws))"

declare schedule.simps [simp del]

definition T1 :: "u32 \<Rightarrow> u32 \<Rightarrow> u32 \<Rightarrow> u32 \<Rightarrow> u32 \<Rightarrow> u32 \<Rightarrow> u32" where
  "T1 h e f g k w = add32 (add32 (add32 (add32 h (bsig1 e)) (Ch e f g)) k) w"

definition T2 :: "u32 \<Rightarrow> u32 \<Rightarrow> u32 \<Rightarrow> u32" where
  "T2 a b c = add32 (bsig0 a) (Maj a b c)"

fun shift :: "hstate \<Rightarrow> u32 \<Rightarrow> u32 \<Rightarrow> hstate" where
  "shift (HState a b c d e f g h) t1 t2 = HState (add32 t1 t2) a b c (add32 d t1) e f g"

fun round256 :: "hstate \<Rightarrow> u32 \<times> u32 \<Rightarrow> hstate" where
  "round256 (HState a b c d e f g h) (k, w) =
     shift (HState a b c d e f g h) (T1 h e f g k w) (T2 a b c)"

fun addState :: "hstate \<Rightarrow> hstate \<Rightarrow> hstate" where
  "addState (HState a b c d e f g h) (HState a' b' c' d' e' f' g' h') =
     HState (add32 a a') (add32 b b') (add32 c c') (add32 d d')
            (add32 e e') (add32 f f') (add32 g g') (add32 h h')"

definition compress :: "hstate \<Rightarrow> u32 list \<Rightarrow> hstate" where
  "compress hs m = addState hs (foldl round256 hs (zip K256 (schedule 48 (rev m))))"

definition be32 :: "nat list \<Rightarrow> u32" where
  "be32 bs = foldl (\<lambda>a b. a * 256 + b) 0 bs"

fun chunks :: "nat \<Rightarrow> 'a list \<Rightarrow> 'a list list" where
  "chunks n [] = []"
| "chunks n (x # xs) =
     (if n = 0 then [x # xs] else take n (x # xs) # chunks n (drop n (x # xs)))"

text \<open>Padding: a \<open>0x80\<close> byte, zeros up to 56 modulo 64, and the bit length in 8 bytes.\<close>

definition pad :: "nat list \<Rightarrow> nat list" where
  "pad bs =
     (let l = length bs; z = (119 - l mod 64) mod 64
      in bs @ [128] @ replicate z 0 @
         map (\<lambda>i. (8 * l) div 256 ^ i mod 256) [7, 6, 5, 4, 3, 2, 1, 0])"

definition blocks512 :: "nat list \<Rightarrow> u32 list list" where
  "blocks512 bs = map (\<lambda>blk. map be32 (chunks 4 blk)) (chunks 64 (pad bs))"

fun words :: "hstate \<Rightarrow> u32 list" where
  "words (HState a b c d e f g h) = [a, b, c, d, e, f, g, h]"

definition hexdigit :: "nat \<Rightarrow> char" where
  "hexdigit n = ''0123456789abcdef'' ! n"

definition hex32 :: "u32 \<Rightarrow> string" where
  "hex32 w = map (\<lambda>i. hexdigit (w div 16 ^ i mod 16)) [7, 6, 5, 4, 3, 2, 1, 0]"

text \<open>\<open>createHash("sha256").update(s).digest("hex")\<close>\<close>

definition sha256_hex :: "string \<Rightarrow> string" where
  "sha256_hex s =
     concat (map hex32 (words (foldl compress H0 (blocks512 (map of_char s)))))"

section \<open>Constants (\<open>src/constants/index.ts\<close>)\<close>

definition MAX_BLOCK_CHARS :: nat where "MAX_BLOCK_CHARS = 1000"
definition MIN_BLOCK_CHARS :: nat where "MIN_BLOCK_CHARS = 50"
definition MAX_FILE_SIZE_BYTES :: nat where "MAX_FILE_SIZE_BYTES = 1 * 1024 * 1024"
definition BATCH_SEGMENT_THRESHOLD :: nat where "BATCH_SEGMENT_THRESHOLD = 60"
definition MAX_BATCH_RETRIES :: nat where "MAX_BATCH_RETRIES = 3"
definition MAX_BATCH_TOKENS :: nat where "MAX_BATCH_TOKENS = 100000"
definition MAX_ITEM_TOKENS :: nat where "MAX_ITEM_TOKENS = 8191"
definition DEFAULT_MAX_SEARCH_RESULTS :: nat where "DEFAULT_MAX_SEARCH_RESULTS = 20"

definition SUPPORTED_EXTENSIONS :: "(string \<times> string list) list" where
  "SUPPORTED_EXTENSIONS =
    [(''javascript'', [''.js'', ''.jsx'', ''.mjs'']),
     (''typescript'', [''.ts'', ''.tsx'']),
     (''python'', [''.py'', ''.pyx'', ''.pyi'']),
     (''java'', [''.java'']),
     (''cpp'', [''.cpp'', ''.cc'', ''.cxx'', ''.c++'', ''.c'', ''.h'', ''.hpp'']),
     (''go'', [''.go'']),
     (''rust'', [''.rs'']),
     (''php'', [''.php'']),
     (''ruby'', [''.rb'']),
     (''swift'', [''.swift'']),
     (''kotlin'', [''.kt'', ''.kts'']),
     (''scala'', [''.scala'']),
     (''csharp'', [''.cs'']),
     (''html'', [''.html'', ''.htm'']),
     (''css'', [''.css'', ''.scss'', ''.sass'', ''.less'']),
     (''json'', [''.json'']),
     (''yaml'', [''.yaml'', ''.yml'']),
     (''xml'', [''.xml'']),
     (''markdown'', [''.md'', ''.markdown'']),
     (''shell'', [''.sh'', ''.bash'', ''.zsh'']),
     (''sql'', [''.sql'']),
     (''dockerfile'', [''Dockerfile'', ''.dockerfile''])]"

text \<open>
  The object \<open>EXTENSION_TO_LANGUAGE\<close> as the list of its assignments, oldest first; a
  lookup takes the latest assignment of the key.
\<close>

definition EXTENSION_TO_LANGUAGE :: "(string \<times> string) list" where
  "EXTENSION_TO_LANGUAGE =
     concat (map (\<lambda>(lang, exts). map (\<lambda>ext. (ext, lang)) exts) SUPPORTED_EXTENSIONS)
     @ [(''Dockerfile'', ''dockerfile''), (''.dockerfile'', ''dockerfile'')]"

definition languageOf :: "string \<Rightarrow> string option" where
  "languageOf ext = map_of (rev EXTENSION_TO_LANGUAGE) ext"

text \<open>\<open>extensions\<close> of \<open>src/tree-sitter/index.ts\<close>\<close>

definition extensions :: "string list" where
  "extensions = map (\<lambda>e. CHR ''.'' # e)
     [''js'', ''jsx'', ''ts'', ''tsx'', ''py'', ''rs'', ''go'', ''c'', ''h'', ''cpp'', ''hpp'',
      ''cs'', ''rb'', ''java'', ''php'', ''swift'', ''sol'', ''kt'', ''kts'', ''ex'', ''exs'',
      ''html'', ''htm'', ''css'', ''ml'', ''mli'', ''lua'', ''scala'', ''toml'', ''zig'']"

section \<open>Code blocks (\<open>src/types/index.ts\<close>)\<close>

datatype BlockType = Function | Class | Interface | Variable | Comment | Other

datatype ParsingMethod = TreeSitter | LineBased | Markdown

record Position =
  row :: nat
  column :: nat

record AstNode =
  astType :: string
  startPosition :: Position
  endPosition :: Position

record Metadata =
  fileExtension :: string
  lineCount :: int
  charCount :: nat
  astNode :: "AstNode option"
  captureType :: "string option"
  parsingMethod :: ParsingMethod

text \<open>The fields \<open>id\<close> and \<open>type\<close> are \<open>idC\<close> and \<open>typeC\<close>.\<close>

record CodeBlock =
  idC :: string
  filePath :: string
  content :: string
  language :: string
  startLine :: nat
  endLine :: nat
  typeC :: BlockType
  name :: "string option"
  metadata :: Metadata

section \<open>The chunker (\<open>src/parser/code-parser.ts\<close>)\<close>

subsection \<open>Block ids and block construction\<close>

text \<open>\<open>s.substring(a, b)\<close> for \<open>a \<le> b\<close>\<close>

definition substring :: "nat \<Rightarrow> nat \<Rightarrow> string \<Rightarrow> string" where
  "substring a b s = take (b - a) (drop a s)"

text \<open>The string that \<open>generateBlockId\<close> hashes.\<close>

definition idSource :: "string \<Rightarrow> nat \<Rightarrow> nat \<Rightarrow> string \<Rightarrow> string" where
  "idSource fp sl el c = fp @ '':'' @ decimal sl @ '':'' @ decimal el @ '':'' @ c"

definition generateBlockId :: "string \<Rightarrow> nat \<Rightarrow> nat \<Rightarrow> string \<Rightarrow> string" where
  "generateBlockId fp sl el c =
     (let hash = sha256_hex (idSource fp sl el c)
      in joinWith ''-'' [substring 0 8 hash, substring 8 12 hash, substring 12 16 hash,
                         substring 16 20 hash, substring 20 32 hash])"

text \<open>The regular expression \<open>/\w+\s*\(/\<close>, tested anywhere in the string.\<close>

fun matchesCall :: "string \<Rightarrow> bool" where
  "matchesCall [] = False"
| "matchesCall (c # cs) =
     ((isWordChar c \<and>
        (case dropWhile isWhitespace (dropWhile isWordChar cs) of
           [] \<Rightarrow> False | p # _ \<Rightarrow> p = CHR ''(''))
      \<or> matchesCall cs)"

definition inferBlockType :: "string \<Rightarrow> string \<Rightarrow> BlockType" where
  "inferBlockType c lang =
     (let t = toLowerCase (trim c) in
      if includesStr t ''function '' \<or> includesStr t ''def '' \<or> includesStr t ''func '' \<or>
         matchesCall t then Function
      else if includesStr t ''class '' \<or> includesStr t ''interface '' \<or>
              includesStr t ''struct '' then Class
      else if includesStr t ''interface '' then Interface
      else if includesStr t ''var '' \<or> includesStr t ''let '' \<or> includesStr t ''const '' \<or>
              includesStr t ''='' then Variable
      else if startsWith t ''//'' \<or> startsWith t ''/*'' \<or> startsWith t ''#'' \<or>
              startsWith t [CHR 0x22, CHR 0x22, CHR 0x22] then Comment
      else Other)"

text \<open>
  \<open>createCodeBlock\<close>: the id is computed from the content as passed in, the stored
  content is its \<open>trim()\<close>. An absent or empty \<open>name\<close> leaves the field unset.
\<close>

definition createCodeBlock ::
  "string \<Rightarrow> string \<Rightarrow> string \<Rightarrow> nat \<Rightarrow> nat \<Rightarrow> string option \<Rightarrow> CodeBlock" where
  "createCodeBlock fp c lang sl el nm =
     \<lparr> idC = generateBlockId fp sl el c,
       filePath = fp,
       content = trim c,
       language = lang,
       startLine = sl,
       endLine = el,
       typeC = inferBlockType c lang,
       name = (case nm of None \<Rightarrow> None | Some n \<Rightarrow> if n = [] then None else Some n),
       metadata = \<lparr> fileExtension = extname fp,
                    lineCount = int el - int sl + 1,
                    charCount = length c,
                    astNode = None,
                    captureType = None,
                    parsingMethod = LineBased \<rparr> \<rparr>"

subsection \<open>Structural chunking: \<open>parseWithTreeSitter\<close>\<close>

text \<open>
  A tree-sitter node with its type, span, text and children, and a query capture with its
  node, that node's parent and the capture name. The captures of a file are the
  structural extractor's answer; they are an input here.
\<close>

datatype SyntaxNode =
  SyntaxNode (nodeType: string) (nodeStart: Position) (nodeEnd: Position)
             (nodeText: string) (nodeChildren: "SyntaxNode list")

record Capture =
  node :: SyntaxNode
  parent :: "SyntaxNode option"
  captureName :: string

fun findIdentifierNodes :: "SyntaxNode \<Rightarrow> SyntaxNode list" where
  "findIdentifierNodes (SyntaxNode ty sp ep tx ch) =
     (if ty = ''identifier'' \<or> ty = ''type_identifier'' then [SyntaxNode ty sp ep tx ch] else [])
     @ concat (map findIdentifierNodes ch)"

text \<open>
  The regular expression
  \<open>/(?:function|class|interface|const|let|var)\s+([a-zA-Z_$][a-zA-Z0-9_$]*)/\<close>:
  \<open>keywordAt\<close> matches it at the start of a string, \<open>matchName\<close> at the leftmost
  position where it matches, and both return the captured identifier.
\<close>

definition isIdentStart :: "char \<Rightarrow> bool" where
  "isIdentStart c = (c \<in> set ''abcdefghijklmnopqrstuvwxyzABCDEFGHIJKLMNOPQRSTUVWXYZ_$'')"

definition isIdentChar :: "char \<Rightarrow> bool" where
  "isIdentChar c =
     (c \<in> set ''abcdefghijklmnopqrstuvwxyzABCDEFGHIJKLMNOPQRSTUVWXYZ0123456789_$'')"

definition keywordAt :: "string \<Rightarrow> string option" where
  "keywordAt s =
     (case filter (startsWith s)
             [''function'', ''class'', ''interface'', ''const'', ''let'', ''var''] of
        [] \<Rightarrow> None
      | k # _ \<Rightarrow>
          (let r = drop (length k) s; r' = dropWhile isWhitespace r in
           (case r' of
              [] \<Rightarrow> None
            | c # _ \<Rightarrow> if length r' < length r \<and> isIdentStart c
                       then Some (takeWhile isIdentChar r') else None)))"

fun matchName :: "string \<Rightarrow> string option" where
  "matchName [] = None"
| "matchName (c # cs) =
     (case keywordAt (c # cs) of Some n \<Rightarrow> Some n | None \<Rightarrow> matchName cs)"

definition extractNameFromCapture :: "Capture \<Rightarrow> string \<Rightarrow> string option" where
  "extractNameFromCapture capture c =
     (if includesStr (captureName capture) ''name'' then Some (nodeText (node capture))
      else if includesStr (captureName capture) ''definition'' \<and>
              findIdentifierNodes (node capture) \<noteq> []
           then Some (nodeText (hd (findIdentifierNodes (node capture))))
      else matchName (trim (hd (splitOn CHR 0x0A c))))"

definition inferBlockTypeFromCapture :: "Capture \<Rightarrow> string \<Rightarrow> BlockType" where
  "inferBlockTypeFromCapture capture c =
     (let n = toLowerCase (captureName capture) in
      if includesStr n ''function'' then Function
      else if includesStr n ''class'' then Class
      else if includesStr n ''interface'' then Interface
      else if includesStr n ''variable'' \<or> includesStr n ''const'' then Variable
      else inferBlockType c [])"

text \<open>\<open>xs.slice(a, b)\<close> for non-negative \<open>a\<close> and \<open>b\<close>\<close>

definition slice :: "nat \<Rightarrow> nat \<Rightarrow> 'a list \<Rightarrow> 'a list" where
  "slice a b xs = take (b - a) (drop a xs)"

definition rangeKey :: "nat \<Rightarrow> nat \<Rightarrow> string" where
  "rangeKey sl el = decimal sl @ ''-'' @ decimal el"

text \<open>The definition node of a capture: the parent for a name capture, else the node.\<close>

definition definitionNode :: "Capture \<Rightarrow> SyntaxNode option" where
  "definitionNode capture =
     (if includesStr (captureName capture) ''name'' then parent capture
      else Some (node capture))"

text \<open>The block that one capture yields once it has passed every filter.\<close>

definition captureBlock :: "string \<Rightarrow> string \<Rightarrow> string \<Rightarrow> Capture \<Rightarrow> nat \<Rightarrow> nat \<Rightarrow> CodeBlock" where
  "captureBlock fp lang blockContent capture sl el =
     (let block = createCodeBlock fp blockContent lang (sl + 1) (el + 1)
                    (extractNameFromCapture capture blockContent)
      in block\<lparr> typeC := inferBlockTypeFromCapture capture blockContent,
                 metadata := (metadata block)
                   \<lparr> astNode := Some \<lparr> astType = nodeType (node capture),
                                         startPosition = nodeStart (node capture),
                                         endPosition = nodeEnd (node capture) \<rparr>,
                     captureType := Some (captureName capture),
                     parsingMethod := TreeSitter \<rparr> \<rparr>)"

text \<open>
  The body of \<open>captures.forEach\<close>, with the two accumulators \<open>blocks\<close> and
  \<open>processedRanges\<close> passed along. The captures are taken in the order given; the
  minimum line count is the literal 3.
\<close>

fun processCaptures ::
  "string \<Rightarrow> string \<Rightarrow> string list \<Rightarrow> Capture list \<Rightarrow> CodeBlock list \<Rightarrow> string list
   \<Rightarrow> CodeBlock list" where
  "processCaptures fp lang lines [] blocks processedRanges = blocks"
| "processCaptures fp lang lines (capture # rest) blocks processedRanges =
     (if \<not> includesStr (captureName capture) ''definition'' \<and>
         \<not> includesStr (captureName capture) ''name''
      then processCaptures fp lang lines rest blocks processedRanges
      else case definitionNode capture of
        None \<Rightarrow> processCaptures fp lang lines rest blocks processedRanges
      | Some d \<Rightarrow>
         (let sl = row (nodeStart d); el = row (nodeEnd d) in
          if int el - int sl + 1 < 3
          then processCaptures fp lang lines rest blocks processedRanges
          else if rangeKey sl el \<in> set processedRanges
          then processCaptures fp lang lines rest blocks processedRanges
          else let blockContent = joinWith [CHR 0x0A] (slice sl (el + 1) lines) in
            if length (trim blockContent) < MIN_BLOCK_CHARS
            then processCaptures fp lang lines rest blocks processedRanges
            else processCaptures fp lang lines rest
                   (blocks @ [captureBlock fp lang blockContent capture sl el])
                   (processedRanges @ [rangeKey sl el])))"

text \<open>
  \<open>parseWithTreeSitter\<close>: \<open>query\<close> is the extractor's answer for the file, \<open>None\<close>
  when no parser or query is available or the parse fails, in which case the method
  throws (\<open>None\<close> here).
\<close>

definition parseWithTreeSitter ::
  "(string \<Rightarrow> string \<Rightarrow> Capture list option) \<Rightarrow> string \<Rightarrow> string \<Rightarrow> CodeBlock list option" where
  "parseWithTreeSitter query fp c =
     (let ext = toLowerCase (extname fp);
          lang = (case languageOf ext of None \<Rightarrow> ''text'' | Some l \<Rightarrow> if l = [] then ''text'' else l)
      in case query fp c of
           None \<Rightarrow> None
         | Some captures \<Rightarrow> Some (processCaptures fp lang (splitOn CHR 0x0A c) captures [] []))"

subsection \<open>Line-based chunking\<close>

definition emitChunk :: "string \<Rightarrow> string \<Rightarrow> string list \<Rightarrow> nat \<Rightarrow> CodeBlock list" where
  "emitChunk fp lang currentChunk chunkStartLine =
     (let blockContent = joinWith [CHR 0x0A] currentChunk in
      if length (trim blockContent) \<ge> MIN_BLOCK_CHARS
      then [createCodeBlock fp blockContent lang chunkStartLine
              (chunkStartLine + length currentChunk - 1) None]
      else [])"

text \<open>
  The loop of \<open>chunkContentByLines\<close> over the lines from index \<open>i\<close> on, with its four
  variables; the result is the blocks, the last chunk and its start line.
\<close>

fun chunkLoop ::
  "string \<Rightarrow> string \<Rightarrow> string list \<Rightarrow> nat \<Rightarrow> CodeBlock list \<Rightarrow> string list \<Rightarrow> nat \<Rightarrow> nat
   \<Rightarrow> CodeBlock list \<times> string list \<times> nat" where
  "chunkLoop fp lang [] i blocks currentChunk currentChunkChars chunkStartLine =
     (blocks, currentChunk, chunkStartLine)"
| "chunkLoop fp lang (line # rest) i blocks currentChunk currentChunkChars chunkStartLine =
     (let lineChars = length line + 1 in
      if currentChunkChars + lineChars > MAX_BLOCK_CHARS \<and> currentChunk \<noteq> []
      then chunkLoop fp lang rest (i + 1)
             (blocks @ emitChunk fp lang currentChunk chunkStartLine) [line] lineChars (i + 1)
      else chunkLoop fp lang rest (i + 1) blocks (currentChunk @ [line])
             (currentChunkChars + lineChars) chunkStartLine)"

definition chunkContentByLines :: "string \<Rightarrow> string list \<Rightarrow> string \<Rightarrow> CodeBlock list" where
  "chunkContentByLines fp lines lang =
     (case chunkLoop fp lang lines 0 [] [] 0 1 of
        (blocks, currentChunk, chunkStartLine) \<Rightarrow>
          if currentChunk \<noteq> [] then blocks @ emitChunk fp lang currentChunk chunkStartLine
          else blocks)"

subsection \<open>Markdown chunking\<close>

text \<open>
  The regular expression \<open>/^(#{1,6})\s+(.+)$/\<close> on one line: the number of hashes and
  the heading text. The dot matches no line terminator, so a line with a carriage return
  after the hashes and blanks does not match.
\<close>

definition isLineTerminator :: "char \<Rightarrow> bool" where
  "isLineTerminator c = (c = CHR 0x0A \<or> c = CHR 0x0D)"

definition headerMatch :: "string \<Rightarrow> (nat \<times> string) option" where
  "headerMatch line =
     (let hashes = takeWhile (\<lambda>c. c = CHR ''#'') line;
          r = dropWhile (\<lambda>c. c = CHR ''#'') line;
          ws = takeWhile isWhitespace r;
          t = dropWhile isWhitespace r
      in if length hashes < 1 \<or> 6 < length hashes \<or> ws = [] then None
         else if t \<noteq> [] then (if \<exists>c \<in> set t. isLineTerminator c then None
                               else Some (length hashes, t))
         else if 2 \<le> length ws \<and> \<not> isLineTerminator (last ws)
              then Some (length hashes, [last ws])
         else None)"

definition sectionName :: "nat \<Rightarrow> string \<Rightarrow> string" where
  "sectionName level headerText =
     (if headerText \<noteq> [] then headerText else ''Section (level '' @ decimal level @ '')'')"

definition emitSection :: "string \<Rightarrow> string list \<Rightarrow> nat \<Rightarrow> nat \<Rightarrow> nat \<Rightarrow> string \<Rightarrow> CodeBlock list" where
  "emitSection fp currentSection sl el level headerText =
     (let sectionContent = joinWith [CHR 0x0A] currentSection in
      if length (trim sectionContent) \<ge> MIN_BLOCK_CHARS
      then [createCodeBlock fp sectionContent ''markdown'' sl el
              (Some (sectionName level headerText))]
      else [])"

fun markdownLoop ::
  "string \<Rightarrow> string list \<Rightarrow> nat \<Rightarrow> CodeBlock list \<Rightarrow> string list \<Rightarrow> nat \<Rightarrow> nat \<Rightarrow> string
   \<Rightarrow> CodeBlock list \<times> string list \<times> nat \<times> nat \<times> string" where
  "markdownLoop fp [] i blocks currentSection sl level headerText =
     (blocks, currentSection, sl, level, headerText)"
| "markdownLoop fp (line # rest) i blocks currentSection sl level headerText =
     (case headerMatch line of
        Some (lvl, txt) \<Rightarrow>
          markdownLoop fp rest (i + 1)
            (if currentSection \<noteq> []
             then blocks @ emitSection fp currentSection sl i level headerText else blocks)
            [line] (i + 1) lvl txt
      | None \<Rightarrow>
          markdownLoop fp rest (i + 1) blocks (currentSection @ [line]) sl level headerText)"

definition parseMarkdownContent :: "string \<Rightarrow> string list \<Rightarrow> CodeBlock list" where
  "parseMarkdownContent fp lines =
     (case markdownLoop fp lines 0 [] [] 1 0 [] of
        (blocks, currentSection, sl, level, headerText) \<Rightarrow>
          if currentSection \<noteq> []
          then blocks @ emitSection fp currentSection sl (length lines) level headerText
          else blocks)"

subsection \<open>\<open>parseContent\<close> and \<open>parseFile\<close>\<close>

definition parseContent :: "string \<Rightarrow> string \<Rightarrow> CodeBlock list" where
  "parseContent fp c =
     (let ext = toLowerCase (extname fp);
          lang = (case languageOf ext of None \<Rightarrow> ''text'' | Some l \<Rightarrow> if l = [] then ''text'' else l);
          lines = splitOn CHR 0x0A c
      in if ext = ''.md'' \<or> ext = ''.markdown'' then parseMarkdownContent fp lines
         else chunkContentByLines fp lines lang)"

text \<open>
  The external collaborators, fixed during one operation. \<open>readFile\<close> and \<open>statSize\<close>
  are \<open>None\<close> where the call throws; \<open>readdir\<close> gives the tree below a directory path
  (\<open>None\<close> where it throws); \<open>ignores\<close> is the exclude filter on relative paths;
  \<open>embedText\<close> is the vector the embedding provider computes for a text; \<open>similarity\<close>
  is the vector store's score of a stored vector against a query vector.
\<close>

type_synonym vector = "real list"

datatype FsNode =
    FileNode string
  | DirNode string "FsNode list"
  | UnreadableDir string
  | BrokenNode string
  | OtherNode string

record Env =
  readFile :: "string \<Rightarrow> string option"
  statSize :: "string \<Rightarrow> nat option"
  query :: "string \<Rightarrow> string \<Rightarrow> Capture list option"
  readdir :: "string \<Rightarrow> FsNode list option"
  ignores :: "string \<Rightarrow> bool"
  embedText :: "string \<Rightarrow> vector"
  similarity :: "vector \<Rightarrow> vector \<Rightarrow> real"

text \<open>
  \<open>parseFile(filePath, content?)\<close>: an absent or empty \<open>content\<close> argument makes it read
  the file. It returns in every case: a read error and a failed structural parse are
  caught inside.
\<close>

definition parseFile :: "Env \<Rightarrow> string \<Rightarrow> string option \<Rightarrow> CodeBlock list" where
  "parseFile env fp contentArg =
     (let ext = toLowerCase (extname fp) in
      if languageOf ext = None then []
      else case (case contentArg of
                   Some c \<Rightarrow> if c \<noteq> [] then Some c else readFile env fp
                 | None \<Rightarrow> readFile env fp) of
        None \<Rightarrow> []
      | Some fileContent \<Rightarrow>
          (if ext \<in> set extensions
           then (case parseWithTreeSitter (query env) fp fileContent of
                   Some astBlocks \<Rightarrow>
                     if astBlocks \<noteq> [] then astBlocks else parseContent fp fileContent
                 | None \<Rightarrow> parseContent fp fileContent)
           else parseContent fp fileContent))"

section \<open>The embedder (\<open>src/embedders/openai.ts\<close>)\<close>

text \<open>
  What changes during an operation: the collection held by the vector store (\<open>None\<close>
  when it does not exist) and, for each of the two remote services, the outcomes of the
  requests to come: the head of \<open>storeFaults\<close> (of \<open>embedFaults\<close>) is \<open>True\<close> when the
  next request to the vector store (to the embedding provider) fails in transport, and an
  exhausted list means no further failure. A failed request has no effect.
\<close>

record Payload =
  pFilePath :: string
  pContent :: string
  pLanguage :: string
  pStartLine :: nat
  pEndLine :: nat
  pType :: BlockType
  pName :: "string option"
  pMetadata :: Metadata

record QPoint =
  qId :: string
  qVector :: "vector option"
  qPayload :: Payload

record Collection =
  vectorsSize :: nat
  points :: "QPoint list"

record World =
  collection :: "Collection option"
  storeFaults :: "bool list"
  embedFaults :: "bool list"

datatype Error =
    ReentrancyError
  | NotIndexedError
  | EmbeddingError
  | StoreError
  | CallbackError string

fun nextFault :: "bool list \<Rightarrow> bool \<times> bool list" where
  "nextFault [] = (False, [])"
| "nextFault (f # fs) = (f, fs)"

text \<open>
  One call of \<open>embeddings.create\<close>: one vector for each input, in order, unless the
  request fails.
\<close>

definition embeddingsCreate :: "Env \<Rightarrow> World \<Rightarrow> string list \<Rightarrow> vector list option \<times> World" where
  "embeddingsCreate env w input =
     (case nextFault (embedFaults w) of
        (True, fs) \<Rightarrow> (None, w\<lparr>embedFaults := fs\<rparr>)
      | (False, fs) \<Rightarrow> (Some (map (embedText env) input), w\<lparr>embedFaults := fs\<rparr>))"

text \<open>
  \<open>_embedBatchWithRetries\<close>, with the number of attempts that are left; the delays
  between the attempts are not modelled.
\<close>

fun embedAttempts :: "nat \<Rightarrow> Env \<Rightarrow> World \<Rightarrow> string list \<Rightarrow> (Error + vector list) \<times> World" where
  "embedAttempts 0 env w batchTexts = (Inl EmbeddingError, w)"
| "embedAttempts (Suc n) env w batchTexts =
     (case embeddingsCreate env w batchTexts of
        (Some embeddings, w') \<Rightarrow> (Inr embeddings, w')
      | (None, w') \<Rightarrow> embedAttempts n env w' batchTexts)"

definition embedBatchWithRetries ::
  "Env \<Rightarrow> World \<Rightarrow> string list \<Rightarrow> (Error + vector list) \<times> World" where
  "embedBatchWithRetries = embedAttempts MAX_BATCH_RETRIES"

text \<open>\<open>Math.ceil(text.length / 4)\<close>\<close>

definition itemTokens :: "string \<Rightarrow> nat" where
  "itemTokens text = (length text + 3) div 4"

text \<open>
  The inner \<open>for\<close> loop of \<open>createEmbeddings\<close> from index \<open>i\<close> on: it returns
  \<open>currentBatch\<close> and \<open>processedIndices\<close>.
\<close>

fun buildBatch ::
  "string list \<Rightarrow> nat \<Rightarrow> string list \<Rightarrow> nat \<Rightarrow> nat list \<Rightarrow> string list \<times> nat list" where
  "buildBatch [] i currentBatch currentBatchTokens processedIndices =
     (currentBatch, processedIndices)"
| "buildBatch (text # rest) i currentBatch currentBatchTokens processedIndices =
     (if itemTokens text > MAX_ITEM_TOKENS
      then buildBatch rest (i + 1) currentBatch currentBatchTokens (processedIndices @ [i])
      else if currentBatchTokens + itemTokens text > MAX_BATCH_TOKENS
      then (currentBatch, processedIndices)
      else buildBatch rest (i + 1) (currentBatch @ [text])
             (currentBatchTokens + itemTokens text) (processedIndices @ [i]))"

text \<open>\<open>xs.splice(i, 1)\<close>, and the removal of the processed indices, last index first.\<close>

definition splice1 :: "nat \<Rightarrow> 'a list \<Rightarrow> 'a list" where
  "splice1 i xs = take i xs @ drop (i + 1) xs"

definition removeProcessed :: "nat list \<Rightarrow> 'a list \<Rightarrow> 'a list" where
  "removeProcessed processedIndices xs = foldl (\<lambda>ys i. splice1 i ys) xs (rev processedIndices)"

lemma buildBatch_indices:
  "buildBatch texts i b t idx = (b', idx') \<Longrightarrow> \<exists>k \<le> length texts. idx' = idx @ [i..<i + k]"
proof (induction texts i b t idx rule: buildBatch.induct)
  case (1 i b t idx)
  then show ?case by simp
next
  case (2 tx rest i b t idx)
  show ?case
  proof (cases "itemTokens tx > MAX_ITEM_TOKENS")
    case True
    with 2 obtain k where "k \<le> length rest" "idx' = (idx @ [i]) @ [i + 1..<i + 1 + k]"
      by auto
    then show ?thesis by (intro exI[of _ "Suc k"]) (simp add: upt_rec[of i])
  next
    case False
    show ?thesis
    proof (cases "t + itemTokens tx > MAX_BATCH_TOKENS")
      case True
      with False 2 show ?thesis by (intro exI[of _ 0]) simp
    next
      case fits: False
      with False 2 obtain k where "k \<le> length rest" "idx' = (idx @ [i]) @ [i + 1..<i + 1 + k]"
        by auto
      then show ?thesis by (intro exI[of _ "Suc k"]) (simp add: upt_rec[of i])
    qed
  qed
qed

lemma removeProcessed_upt: "k \<le> length xs \<Longrightarrow> removeProcessed [0..<k] xs = drop k xs"
proof (induction k arbitrary: xs)
  case 0
  then show ?case by (simp add: removeProcessed_def)
next
  case (Suc k)
  have "removeProcessed [0..<Suc k] xs = removeProcessed [0..<k] (splice1 k xs)"
    by (simp add: removeProcessed_def)
  also have "\<dots> = drop k (splice1 k xs)" using Suc by (simp add: splice1_def)
  also have "\<dots> = drop (Suc k) xs" using Suc.prems by (simp add: splice1_def)
  finally show ?case .
qed

lemma buildBatch_progress:
  assumes "buildBatch (tx # rest) 0 [] 0 [] = (b', idx')"
  shows "length (removeProcessed idx' (tx # rest)) < length (tx # rest)"
proof -
  obtain k where k: "k \<le> length (tx # rest)" "idx' = [0..<k]"
    using buildBatch_indices[OF assms] by auto
  have "idx' \<noteq> []"
    using assms
    by (auto simp: MAX_ITEM_TOKENS_def MAX_BATCH_TOKENS_def split: if_splits
             dest!: buildBatch_indices)
  with k have "0 < k" by auto
  with k show ?thesis by (simp add: removeProcessed_upt)
qed

lemma buildBatch_measure:
  assumes "xs \<noteq> []" and "(b', idx') = buildBatch xs 0 [] 0 []"
  shows "length (removeProcessed idx' xs) < length xs"
  using assms buildBatch_progress[of "hd xs" "tl xs" b' idx'] by (cases xs) auto

text \<open>
  The \<open>while\<close> loop of \<open>createEmbeddings\<close>, with \<open>remainingTexts\<close> and
  \<open>allEmbeddings\<close>. A batch that fails after its retries makes the whole call throw.
\<close>

function embedLoop ::
  "Env \<Rightarrow> World \<Rightarrow> string list \<Rightarrow> vector list \<Rightarrow> (Error + vector list) \<times> World" where
  "embedLoop env w remainingTexts allEmbeddings =
     (if remainingTexts = [] then (Inr allEmbeddings, w)
      else case buildBatch remainingTexts 0 [] 0 [] of
        (currentBatch, processedIndices) \<Rightarrow>
          if currentBatch \<noteq> []
          then (case embedBatchWithRetries env w currentBatch of
                  (Inl e, w') \<Rightarrow> (Inl e, w')
                | (Inr embeddings, w') \<Rightarrow>
                    embedLoop env w' (removeProcessed processedIndices remainingTexts)
                      (allEmbeddings @ embeddings))
          else embedLoop env w (removeProcessed processedIndices remainingTexts) allEmbeddings)"
  by pat_completeness auto
termination
  by (relation "measure (\<lambda>(env, w, remainingTexts, allEmbeddings). length remainingTexts)")
     (auto intro: buildBatch_measure)

declare embedLoop.simps [simp del]

definition createEmbeddings ::
  "Env \<Rightarrow> World \<Rightarrow> string list \<Rightarrow> (Error + vector list) \<times> World" where
  "createEmbeddings env w texts =
     (if texts = [] then (Inr [], w) else embedLoop env w texts [])"

section \<open>The vector store (\<open>src/vector-store/qdrant.ts\<close>)\<close>

subsection \<open>The Qdrant service\<close>

text \<open>
  The requests of the Qdrant client on the one collection of the store. Each takes the
  next outcome from \<open>storeFaults\<close>; apart from a transport failure, a request throws when
  it needs the collection and there is none, and \<open>createCollection\<close> throws when there is
  one. \<open>deleteCollection\<close> succeeds whether or not the collection exists. The result
  \<open>False\<close> or \<open>None\<close> is a throw. The service does not validate the vectors it is given.
\<close>

definition request :: "World \<Rightarrow> bool \<times> World" where
  "request w = (case nextFault (storeFaults w) of (f, fs) \<Rightarrow> (f, w\<lparr>storeFaults := fs\<rparr>))"

definition getCollection :: "World \<Rightarrow> nat option \<times> World" where
  "getCollection w =
     (case request w of
        (True, w') \<Rightarrow> (None, w')
      | (False, w') \<Rightarrow> (map_option vectorsSize (collection w'), w'))"

definition createCollection :: "nat \<Rightarrow> World \<Rightarrow> bool \<times> World" where
  "createCollection dimension w =
     (case request w of
        (True, w') \<Rightarrow> (False, w')
      | (False, w') \<Rightarrow>
          (case collection w' of
             Some c \<Rightarrow> (False, w')
           | None \<Rightarrow> (True, w'\<lparr>collection := Some \<lparr>vectorsSize = dimension, points = []\<rparr>\<rparr>)))"

definition deleteCollection :: "World \<Rightarrow> bool \<times> World" where
  "deleteCollection w =
     (case request w of
        (True, w') \<Rightarrow> (False, w')
      | (False, w') \<Rightarrow> (True, w'\<lparr>collection := None\<rparr>))"

definition createPayloadIndex :: "World \<Rightarrow> bool \<times> World" where
  "createPayloadIndex w =
     (case request w of
        (True, w') \<Rightarrow> (False, w')
      | (False, w') \<Rightarrow> (collection w' \<noteq> None, w'))"

text \<open>Insert-or-replace of one point, keyed by its id.\<close>

fun upsertPoint :: "QPoint \<Rightarrow> QPoint list \<Rightarrow> QPoint list" where
  "upsertPoint p [] = [p]"
| "upsertPoint p (q # qs) = (if qId q = qId p then p # qs else q # upsertPoint p qs)"

definition upsert :: "QPoint list \<Rightarrow> World \<Rightarrow> bool \<times> World" where
  "upsert ps w =
     (case request w of
        (True, w') \<Rightarrow> (False, w')
      | (False, w') \<Rightarrow>
          (case collection w' of
             None \<Rightarrow> (False, w')
           | Some c \<Rightarrow>
               (True, w'\<lparr>collection :=
                          Some (c\<lparr>points := foldl (\<lambda>qs p. upsertPoint p qs) (points c) ps\<rparr>)\<rparr>)))"

text \<open>Delete by the filter \<open>filePath = fp\<close> on the payload.\<close>

definition deleteByFilter :: "string \<Rightarrow> World \<Rightarrow> bool \<times> World" where
  "deleteByFilter fp w =
     (case request w of
        (True, w') \<Rightarrow> (False, w')
      | (False, w') \<Rightarrow>
          (case collection w' of
             None \<Rightarrow> (False, w')
           | Some c \<Rightarrow>
               (True, w'\<lparr>collection :=
                          Some (c\<lparr>points := filter (\<lambda>q. pFilePath (qPayload q) \<noteq> fp) (points c)\<rparr>)\<rparr>)))"

text \<open>
  Similarity search: the points that carry a vector, scored against the query vector,
  those at or above the threshold, best first, at most \<open>limit\<close> of them.
\<close>

definition scoredPoints :: "Env \<Rightarrow> vector \<Rightarrow> QPoint list \<Rightarrow> (QPoint \<times> real) list" where
  "scoredPoints env v qs =
     concat (map (\<lambda>q. case qVector q of None \<Rightarrow> [] | Some u \<Rightarrow> [(q, similarity env v u)]) qs)"

definition searchPoints ::
  "Env \<Rightarrow> vector \<Rightarrow> nat \<Rightarrow> real \<Rightarrow> World \<Rightarrow> (QPoint \<times> real) list option \<times> World" where
  "searchPoints env v limit threshold w =
     (case request w of
        (True, w') \<Rightarrow> (None, w')
      | (False, w') \<Rightarrow>
          (case collection w' of
             None \<Rightarrow> (None, w')
           | Some c \<Rightarrow>
               (Some (take limit (sort_key (\<lambda>(q, sc). - sc)
                        (filter (\<lambda>(q, sc). threshold \<le> sc) (scoredPoints env v (points c))))),
                w')))"

subsection \<open>\<open>QdrantVectorStore\<close>\<close>

record VectorPoint =
  idP :: string
  vector :: "vector option"
  payload :: CodeBlock

record VectorStoreSearchResult =
  rId :: string
  rScore :: real
  rPayload :: CodeBlock

text \<open>The vector size the indexer configures (\<open>initializeComponents\<close>).\<close>

definition VECTOR_SIZE :: nat where "VECTOR_SIZE = 1536"

definition DEFAULT_SEARCH_MIN_SCORE :: real where "DEFAULT_SEARCH_MIN_SCORE = 0.7"

definition getCollectionInfo :: "World \<Rightarrow> nat option \<times> World" where
  "getCollectionInfo w = getCollection w"

text \<open>\<open>_createPayloadIndexes\<close>: three requests, the first failure ends them, none throws.\<close>

definition createPayloadIndexes :: "World \<Rightarrow> World" where
  "createPayloadIndexes w =
     (case createPayloadIndex w of
        (False, w1) \<Rightarrow> w1
      | (True, w1) \<Rightarrow>
          (case createPayloadIndex w1 of
             (False, w2) \<Rightarrow> w2
           | (True, w2) \<Rightarrow> snd (createPayloadIndex w2)))"

definition recreateCollectionWithNewDimension :: "World \<Rightarrow> (Error + unit) \<times> World" where
  "recreateCollectionWithNewDimension w =
     (case deleteCollection w of
        (_, w1) \<Rightarrow>
          (case createCollection VECTOR_SIZE w1 of
             (False, w2) \<Rightarrow> (Inl StoreError, w2)
           | (True, w2) \<Rightarrow> (Inr (), createPayloadIndexes w2)))"

definition initialize :: "World \<Rightarrow> (Error + unit) \<times> World" where
  "initialize w =
     (case getCollectionInfo w of
        (None, w1) \<Rightarrow>
          (case createCollection VECTOR_SIZE w1 of
             (False, w2) \<Rightarrow> (Inl StoreError, w2)
           | (True, w2) \<Rightarrow> (Inr (), createPayloadIndexes w2))
      | (Some existingVectorSize, w1) \<Rightarrow>
          if existingVectorSize \<noteq> 0 \<and> existingVectorSize \<noteq> VECTOR_SIZE
          then recreateCollectionWithNewDimension w1
          else (Inr (), w1))"

definition sanitizePayload :: "CodeBlock \<Rightarrow> Payload" where
  "sanitizePayload b =
     \<lparr> pFilePath = filePath b, pContent = content b, pLanguage = language b,
       pStartLine = startLine b, pEndLine = endLine b, pType = typeC b,
       pName = (case name b of None \<Rightarrow> None | Some n \<Rightarrow> if n = [] then None else Some n),
       pMetadata = metadata b \<rparr>"

definition toQPoint :: "VectorPoint \<Rightarrow> QPoint" where
  "toQPoint p = \<lparr> qId = idP p, qVector = vector p, qPayload = sanitizePayload (payload p) \<rparr>"

definition upsertPoints :: "VectorPoint list \<Rightarrow> World \<Rightarrow> (Error + unit) \<times> World" where
  "upsertPoints ps w =
     (if ps = [] then (Inr (), w)
      else case upsert (map toQPoint ps) w of
             (True, w') \<Rightarrow> (Inr (), w')
           | (False, w') \<Rightarrow> (Inl StoreError, w'))"

text \<open>The stored payload has no \<open>id\<close> field, so the rebuilt block has the empty id.\<close>

definition deserializePayload :: "Payload \<Rightarrow> CodeBlock" where
  "deserializePayload p =
     \<lparr> idC = [], filePath = pFilePath p, content = pContent p, language = pLanguage p,
       startLine = pStartLine p, endLine = pEndLine p, typeC = pType p,
       name = (case pName p of None \<Rightarrow> None | Some n \<Rightarrow> if n = [] then None else Some n),
       metadata = pMetadata p \<rparr>"

definition searchSimilar ::
  "Env \<Rightarrow> vector \<Rightarrow> nat \<Rightarrow> real option \<Rightarrow> World
   \<Rightarrow> (Error + VectorStoreSearchResult list) \<times> World" where
  "searchSimilar env v limit minScoreArg w =
     (case searchPoints env v limit
             (case minScoreArg of None \<Rightarrow> DEFAULT_SEARCH_MIN_SCORE | Some m \<Rightarrow> m) w of
        (None, w') \<Rightarrow> (Inl StoreError, w')
      | (Some rs, w') \<Rightarrow>
          (Inr (map (\<lambda>(q, sc). \<lparr> rId = qId q, rScore = sc,
                                 rPayload = deserializePayload (qPayload q) \<rparr>) rs), w'))"

definition deletePointsByFilePath :: "string \<Rightarrow> World \<Rightarrow> (Error + unit) \<times> World" where
  "deletePointsByFilePath fp w =
     (case deleteByFilter fp w of
        (True, w') \<Rightarrow> (Inr (), w')
      | (False, w') \<Rightarrow> (Inl StoreError, w'))"

definition clearCollection :: "World \<Rightarrow> (Error + unit) \<times> World" where
  "clearCollection w =
     (case deleteCollection w of
        (False, w1) \<Rightarrow> (Inl StoreError, w1)
      | (True, w1) \<Rightarrow> initialize w1)"

definition collectionExists :: "World \<Rightarrow> bool \<times> World" where
  "collectionExists w = (case getCollectionInfo w of (info, w') \<Rightarrow> (info \<noteq> None, w'))"

section \<open>The directory scanner (\<open>src/scanner/directory-scanner.ts\<close>)\<close>

datatype Stage = Scanning | Parsing | Embedding | Storing | Completed

record IndexingProgress =
  totalFiles :: nat
  processedFiles :: nat
  currentFile :: string
  stage :: Stage
  errors :: "string list"

text \<open>
  The optional progress callback: \<open>None\<close> when it is absent; when present, its result
  on a progress record is \<open>Some msg\<close> when it throws \<open>Error(msg)\<close> there.
\<close>

type_synonym ProgressCallback = "(IndexingProgress \<Rightarrow> string option) option"

definition callProgress :: "ProgressCallback \<Rightarrow> IndexingProgress \<Rightarrow> string option" where
  "callProgress onProgress progress =
     (case onProgress of None \<Rightarrow> None | Some f \<Rightarrow> f progress)"

definition pathJoin :: "string \<Rightarrow> string \<Rightarrow> string" where
  "pathJoin dir entry = dir @ ''/'' @ entry"

text \<open>\<open>path.relative(dir, p)\<close> for a path \<open>p\<close> below \<open>dir\<close>\<close>

definition pathRelative :: "string \<Rightarrow> string \<Rightarrow> string" where
  "pathRelative dir p = drop (length dir + 1) p"

text \<open>
  \<open>getAllFiles\<close>: the files below one entry of the directory \<open>dirPath\<close>. A directory is
  tested against the exclude filter by its name; an entry whose \<open>stat\<close> throws, a
  directory whose listing throws, and an entry that is neither contribute nothing.
\<close>

fun filesOfEntry :: "Env \<Rightarrow> string \<Rightarrow> FsNode \<Rightarrow> string list" where
  "filesOfEntry env dirPath (FileNode n) = [pathJoin dirPath n]"
| "filesOfEntry env dirPath (DirNode n entries) =
     (if ignores env n then []
      else concat (map (filesOfEntry env (pathJoin dirPath n)) entries))"
| "filesOfEntry env dirPath (UnreadableDir n) = []"
| "filesOfEntry env dirPath (BrokenNode n) = []"
| "filesOfEntry env dirPath (OtherNode n) = []"

definition getAllFiles :: "Env \<Rightarrow> string \<Rightarrow> string list" where
  "getAllFiles env dirPath =
     (case readdir env dirPath of
        None \<Rightarrow> []
      | Some entries \<Rightarrow> concat (map (filesOfEntry env dirPath) entries))"

text \<open>\<open>processFile\<close>: every failure is caught here and gives no blocks.\<close>

definition processFile :: "Env \<Rightarrow> string \<Rightarrow> CodeBlock list" where
  "processFile env fp =
     (case statSize env fp of
        None \<Rightarrow> []
      | Some sz \<Rightarrow> if sz > MAX_FILE_SIZE_BYTES then [] else parseFile env fp None)"

text \<open>
  The task of one file inside \<open>scanDirectory\<close>, on \<open>allBlocks\<close> and the shared progress
  record. Its \<open>catch\<close> is reached only from the two progress callbacks.
\<close>

definition fileTask ::
  "Env \<Rightarrow> ProgressCallback \<Rightarrow> CodeBlock list \<times> IndexingProgress \<Rightarrow> string
   \<Rightarrow> CodeBlock list \<times> IndexingProgress" where
  "fileTask env onProgress acc fp =
     (case acc of (allBlocks, progress) \<Rightarrow>
        (let p1 = progress\<lparr>currentFile := fp, stage := Parsing\<rparr> in
         case callProgress onProgress p1 of
           Some msg \<Rightarrow>
             (allBlocks, p1\<lparr>errors := errors p1 @ [''Error processing '' @ fp @ '': '' @ msg]\<rparr>)
         | None \<Rightarrow>
             (let allBlocks' = allBlocks @ processFile env fp;
                  p2 = p1\<lparr>processedFiles := processedFiles p1 + 1\<rparr> in
              case callProgress onProgress p2 of
                Some msg \<Rightarrow>
                  (allBlocks',
                   p2\<lparr>errors := errors p2 @ [''Error processing '' @ fp @ '': '' @ msg]\<rparr>)
              | None \<Rightarrow> (allBlocks', p2))))"

text \<open>
  \<open>scanDirectory\<close>. The per-file tasks are run one after the other in the order of the
  file list; the interleaving of their asynchronous steps under the semaphore is not
  modelled. The result carries the final progress record next to the blocks.
\<close>

definition scanDirectory ::
  "Env \<Rightarrow> string \<Rightarrow> ProgressCallback \<Rightarrow> Error + CodeBlock list \<times> IndexingProgress" where
  "scanDirectory env directoryPath onProgress =
     (let allFiles = getAllFiles env directoryPath;
          supportedFiles = filter (\<lambda>f. \<not> ignores env (pathRelative directoryPath f)) allFiles;
          progress = \<lparr> totalFiles = length supportedFiles, processedFiles = 0,
                       currentFile = [], stage = Scanning, errors = [] \<rparr>
      in case callProgress onProgress progress of
           Some msg \<Rightarrow> Inl (CallbackError msg)
         | None \<Rightarrow>
             (case foldl (fileTask env onProgress) ([], progress) supportedFiles of
                (allBlocks, p) \<Rightarrow>
                  (case callProgress onProgress (p\<lparr>stage := Completed\<rparr>) of
                     Some msg \<Rightarrow> Inl (CallbackError msg)
                   | None \<Rightarrow> Inr (allBlocks, p\<lparr>stage := Completed\<rparr>))))"

section \<open>The file watcher (\<open>src/watcher/file-watcher.ts\<close>)\<close>

datatype ChangeType = Add | Change | Unlink

text \<open>
  Time is a number of milliseconds. The pending timers are kept in the order of their
  creation, each with its path, its deadline and the change type its callback will
  carry; as all timers have the same delay, this is also the order of their deadlines.
\<close>

record FileWatcher =
  watcherOpen :: bool
  debounceMs :: nat
  debounceTimers :: "(string \<times> nat \<times> ChangeType) list"

definition DEFAULT_DEBOUNCE_MS :: nat where "DEFAULT_DEBOUNCE_MS = 1000"

text \<open>The constructor: \<open>config.debounceMs || DEFAULT_WATCHER_CONFIG.debounceMs\<close>.\<close>

definition newFileWatcher :: "nat option \<Rightarrow> FileWatcher" where
  "newFileWatcher cfg =
     \<lparr> watcherOpen = False,
       debounceMs = (case cfg of None \<Rightarrow> DEFAULT_DEBOUNCE_MS
                     | Some d \<Rightarrow> if d = 0 then DEFAULT_DEBOUNCE_MS else d),
       debounceTimers = [] \<rparr>"

definition isSupportedFile :: "string \<Rightarrow> bool" where
  "isSupportedFile fp = (languageOf (toLowerCase (extname fp)) \<noteq> None)"

text \<open>
  \<open>debounceCallback\<close> at time \<open>now\<close>: the pending timer of the path is cleared and a new
  one is set, due \<open>debounceMs\<close> later.
\<close>

definition debounceCallback :: "nat \<Rightarrow> string \<Rightarrow> ChangeType \<Rightarrow> FileWatcher \<Rightarrow> FileWatcher" where
  "debounceCallback now fp changeType fw =
     fw\<lparr>debounceTimers :=
          filter (\<lambda>(p, d, ty). p \<noteq> fp) (debounceTimers fw) @ [(fp, now + debounceMs fw, changeType)]\<rparr>"

definition stopWatcher :: "FileWatcher \<Rightarrow> FileWatcher" where
  "stopWatcher fw = fw\<lparr>watcherOpen := False, debounceTimers := []\<rparr>"

definition startWatcher :: "FileWatcher \<Rightarrow> FileWatcher" where
  "startWatcher fw = (if watcherOpen fw then stopWatcher fw else fw)\<lparr>watcherOpen := True\<rparr>"





section \<open>The index manager (\<open>src/manager/codebase-indexer.ts\<close>)\<close>

datatype IndexingState = Idle | Indexing | Indexed | ErrorState | Watching

record SearchOptions =
  minScore :: "real option"
  maxResults :: "nat option"
  includeSnippet :: "bool option"

record SearchResult =
  codeBlock :: CodeBlock
  score :: real
  resultFilePath :: string
  snippet :: string

record CodebaseIndexer =
  state :: IndexingState
  currentWatchPath :: "string option"
  searchConfig :: SearchOptions
  watcher :: FileWatcher

definition DEFAULT_SEARCH_CONFIG :: SearchOptions where
  "DEFAULT_SEARCH_CONFIG =
     \<lparr> minScore = Some DEFAULT_SEARCH_MIN_SCORE, maxResults = Some DEFAULT_MAX_SEARCH_RESULTS,
       includeSnippet = Some True \<rparr>"

text \<open>A freshly constructed indexer with the default configuration.\<close>

definition newIndexer :: CodebaseIndexer where
  "newIndexer =
     \<lparr> state = Idle, currentWatchPath = None, searchConfig = DEFAULT_SEARCH_CONFIG,
       watcher = newFileWatcher (Some DEFAULT_DEBOUNCE_MS) \<rparr>"

fun nthOpt :: "'a list \<Rightarrow> nat \<Rightarrow> 'a option" where
  "nthOpt [] i = None"
| "nthOpt (x # xs) 0 = Some x"
| "nthOpt (x # xs) (Suc i) = nthOpt xs i"

text \<open>
  The points of \<open>processBatch\<close>: the block at index \<open>i\<close> with \<open>embeddings[i]\<close>, which is
  undefined (\<open>None\<close>) beyond the end of \<open>embeddings\<close>.
\<close>

definition vectorPoints :: "CodeBlock list \<Rightarrow> vector list \<Rightarrow> VectorPoint list" where
  "vectorPoints codeBlocks embeddings =
     map (\<lambda>(index, block). \<lparr> idP = idC block, vector = nthOpt embeddings index, payload = block \<rparr>)
         (zip [0..<length codeBlocks] codeBlocks)"

definition processBatch :: "Env \<Rightarrow> World \<Rightarrow> CodeBlock list \<Rightarrow> (Error + unit) \<times> World" where
  "processBatch env w codeBlocks =
     (case createEmbeddings env w (map content codeBlocks) of
        (Inl e, w1) \<Rightarrow> (Inl e, w1)
      | (Inr embeddings, w1) \<Rightarrow> upsertPoints (vectorPoints codeBlocks embeddings) w1)"

text \<open>\<open>createBatches\<close> for a positive batch size.\<close>

definition createBatches :: "'a list \<Rightarrow> nat \<Rightarrow> 'a list list" where
  "createBatches items batchSize = chunks batchSize items"

text \<open>
  The batch loop of \<open>indexDirectory\<close> from batch \<open>i\<close> on: the progress callback, then
  \<open>processBatch\<close>; the first throw ends it.
\<close>

fun batchLoop ::
  "Env \<Rightarrow> ProgressCallback \<Rightarrow> IndexingProgress \<Rightarrow> nat \<Rightarrow> nat \<Rightarrow> CodeBlock list list \<Rightarrow> World
   \<Rightarrow> (Error + IndexingProgress) \<times> World" where
  "batchLoop env onProgress progress i n [] w = (Inr progress, w)"
| "batchLoop env onProgress progress i n (batch # rest) w =
     (let p = progress\<lparr>currentFile :=
                 ''Processing batch '' @ decimal (i + 1) @ ''/'' @ decimal n\<rparr> in
      case callProgress onProgress p of
        Some msg \<Rightarrow> (Inl (CallbackError msg), w)
      | None \<Rightarrow>
          (case processBatch env w batch of
             (Inl e, w') \<Rightarrow> (Inl e, w')
           | (Inr u, w') \<Rightarrow> batchLoop env onProgress p (i + 1) n rest w'))"

text \<open>
  The body of the \<open>try\<close> of \<open>indexDirectory\<close>; \<open>Inr\<close> on normal completion, \<open>Inl\<close> with
  the error thrown.
\<close>

definition indexBody ::
  "Env \<Rightarrow> string \<Rightarrow> ProgressCallback \<Rightarrow> World \<Rightarrow> (Error + unit) \<times> World" where
  "indexBody env directoryPath onProgress w =
     (case initialize w of
        (Inl e, w1) \<Rightarrow> (Inl e, w1)
      | (Inr u, w1) \<Rightarrow>
          (let progress = \<lparr> totalFiles = 0, processedFiles = 0, currentFile = [],
                            stage = Scanning, errors = [] \<rparr> in
           case callProgress onProgress progress of
             Some msg \<Rightarrow> (Inl (CallbackError msg), w1)
           | None \<Rightarrow>
               (case scanDirectory env directoryPath onProgress of
                  Inl e \<Rightarrow> (Inl e, w1)
                | Inr (codeBlocks, scanProgress) \<Rightarrow>
                    if codeBlocks = [] then (Inr (), w1)
                    else
                      (case callProgress onProgress (progress\<lparr>stage := Embedding\<rparr>) of
                         Some msg \<Rightarrow> (Inl (CallbackError msg), w1)
                       | None \<Rightarrow>
                           (let batches = createBatches codeBlocks BATCH_SEGMENT_THRESHOLD in
                            case batchLoop env onProgress (progress\<lparr>stage := Embedding\<rparr>) 0
                                   (length batches) batches w1 of
                              (Inl e, w2) \<Rightarrow> (Inl e, w2)
                            | (Inr p, w2) \<Rightarrow>
                                (case callProgress onProgress (p\<lparr>stage := Completed\<rparr>) of
                                   Some msg \<Rightarrow> (Inl (CallbackError msg), w2)
                                 | None \<Rightarrow> (Inr (), w2)))))))"

text \<open>
  \<open>indexDirectory\<close>. When the final progress callback throws, the state has been set
  to \<open>indexed\<close> before and the \<open>catch\<close> sets it to \<open>error\<close>, as for every other throw.
\<close>

definition indexDirectory ::
  "Env \<Rightarrow> string \<Rightarrow> ProgressCallback \<Rightarrow> CodebaseIndexer \<times> World
   \<Rightarrow> (Error + unit) \<times> CodebaseIndexer \<times> World" where
  "indexDirectory env directoryPath onProgress st =
     (case st of (ix, w) \<Rightarrow>
        if state ix = Indexing then (Inl ReentrancyError, ix, w)
        else (case indexBody env directoryPath onProgress w of
                (Inl e, w') \<Rightarrow> (Inl e, ix\<lparr>state := ErrorState\<rparr>, w')
              | (Inr u, w') \<Rightarrow> (Inr (), ix\<lparr>state := Indexed\<rparr>, w')))"

text \<open>\<open>{ ...this.config.search, ...options }\<close>\<close>

definition mergeOptions :: "SearchOptions \<Rightarrow> SearchOptions \<Rightarrow> SearchOptions" where
  "mergeOptions cfg options =
     \<lparr> minScore = (case minScore options of None \<Rightarrow> minScore cfg | Some m \<Rightarrow> Some m),
       maxResults = (case maxResults options of None \<Rightarrow> maxResults cfg | Some m \<Rightarrow> Some m),
       includeSnippet =
         (case includeSnippet options of None \<Rightarrow> includeSnippet cfg | Some b \<Rightarrow> Some b) \<rparr>"

definition createSnippet :: "string \<Rightarrow> bool \<Rightarrow> string" where
  "createSnippet c incl =
     (if \<not> incl then c
      else if length c \<le> 200 then c
      else substring 0 200 c @ ''...'')"

definition search ::
  "Env \<Rightarrow> string \<Rightarrow> SearchOptions \<Rightarrow> CodebaseIndexer \<times> World
   \<Rightarrow> (Error + SearchResult list) \<times> CodebaseIndexer \<times> World" where
  "search env q options st =
     (case st of (ix, w) \<Rightarrow>
        (case collectionExists w of
           (False, w1) \<Rightarrow> (Inl NotIndexedError, ix, w1)
         | (True, w1) \<Rightarrow>
             (let searchOptions = mergeOptions (searchConfig ix) options in
              case createEmbeddings env w1 [q] of
                (Inl e, w2) \<Rightarrow> (Inl e, ix, w2)
              | (Inr queryEmbeddings, w2) \<Rightarrow>
                  (case queryEmbeddings of
                     [] \<Rightarrow> (Inr [], ix, w2)
                   | queryVector # _ \<Rightarrow>
                       (case searchSimilar env queryVector
                               (case maxResults searchOptions of
                                  None \<Rightarrow> 10 | Some m \<Rightarrow> if m = 0 then 10 else m)
                               (minScore searchOptions) w2 of
                          (Inl e, w3) \<Rightarrow> (Inl e, ix, w3)
                        | (Inr vectorResults, w3) \<Rightarrow>
                            (Inr (map (\<lambda>r. \<lparr> codeBlock = rPayload r, score = rScore r,
                                              resultFilePath = filePath (rPayload r),
                                              snippet = createSnippet (content (rPayload r))
                                                (case includeSnippet searchOptions of
                                                   None \<Rightarrow> False | Some b \<Rightarrow> b) \<rparr>)
                                   vectorResults), ix, w3))))))"

definition stopWatching :: "CodebaseIndexer \<Rightarrow> CodebaseIndexer" where
  "stopWatching ix =
     ix\<lparr> watcher := stopWatcher (watcher ix), currentWatchPath := None,
         state := (if state ix = Watching then Idle else state ix) \<rparr>"

definition startWatching :: "string \<Rightarrow> CodebaseIndexer \<Rightarrow> CodebaseIndexer" where
  "startWatching directoryPath ix =
     (let ix1 = (if state ix = Watching then stopWatching ix else ix) in
      ix1\<lparr> currentWatchPath := Some directoryPath, state := Watching,
           watcher := startWatcher (watcher ix1) \<rparr>)"

definition clearIndex ::
  "CodebaseIndexer \<times> World \<Rightarrow> (Error + unit) \<times> CodebaseIndexer \<times> World" where
  "clearIndex st =
     (case st of (ix, w) \<Rightarrow>
        (case clearCollection w of
           (Inl e, w') \<Rightarrow> (Inl e, ix, w')
         | (Inr u, w') \<Rightarrow> (Inr (), ix\<lparr>state := Idle\<rparr>, w')))"

text \<open>
  \<open>handleFileChange\<close>. For \<open>add\<close> and \<open>change\<close> every throw is caught inside, and the
  store is touched only when the new chunking has at least one block.
\<close>

definition handleFileChange ::
  "Env \<Rightarrow> string \<Rightarrow> ChangeType \<Rightarrow> World \<Rightarrow> (Error + unit) \<times> World" where
  "handleFileChange env fp changeType w =
     (if changeType = Unlink then deletePointsByFilePath fp w
      else let codeBlocks = parseFile env fp None in
        if codeBlocks \<noteq> []
        then (case deletePointsByFilePath fp w of
                (Inl e, w1) \<Rightarrow> (Inr (), w1)
              | (Inr u, w1) \<Rightarrow> (Inr (), snd (processBatch env w1 codeBlocks)))
        else (Inr (), w))"

text \<open>
  The callback that \<open>startWatching\<close> hands to the watcher: \<open>handleFileChange\<close> with every
  throw caught.
\<close>

definition onFileChange :: "Env \<Rightarrow> string \<Rightarrow> ChangeType \<Rightarrow> World \<Rightarrow> World" where
  "onFileChange env fp changeType w = snd (handleFileChange env fp changeType w)"

section \<open>Example inputs\<close>

text \<open>An environment in which every file system call throws, and a fresh empty collection.\<close>

definition quietEnv :: Env where
  "quietEnv =
     \<lparr> readFile = (\<lambda>p. None), statSize = (\<lambda>p. None), query = (\<lambda>p c. None),
       readdir = (\<lambda>p. None), ignores = (\<lambda>p. False),
       embedText = (\<lambda>s. [real (length s)]), similarity = (\<lambda>u v. 1) \<rparr>"

definition emptyCollection :: Collection where
  "emptyCollection = \<lparr> vectorsSize = VECTOR_SIZE, points = [] \<rparr>"

section \<open>Properties of the embedder and the store\<close>

lemma request_collection [simp]: "collection (snd (request w)) = collection w"
  by (cases "storeFaults w") (simp_all add: request_def)

lemma request_embedFaults [simp]: "embedFaults (snd (request w)) = embedFaults w"
  by (cases "storeFaults w") (simp_all add: request_def)

lemma embedAttempts_error:
  "embedAttempts n env w batch = (Inl e, w') \<Longrightarrow> e = EmbeddingError"
  by (induction n arbitrary: w) (auto simp: embeddingsCreate_def split: prod.splits option.splits bool.splits)

lemma embedAttempts_store:
  "collection (snd (embedAttempts n env w batch)) = collection w \<and>
   storeFaults (snd (embedAttempts n env w batch)) = storeFaults w"
  by (induction n arbitrary: w) (auto simp: embeddingsCreate_def split: prod.splits option.splits bool.splits)

lemma embedLoop_error:
  "embedLoop env w remaining acc = (Inl e, w') \<Longrightarrow> e = EmbeddingError"
proof (induction env w remaining acc rule: embedLoop.induct)
  case (1 env w remainingTexts allEmbeddings)
  show ?case
    using "1.prems" "1.IH"
    by (subst (asm) embedLoop.simps)
       (auto simp: embedBatchWithRetries_def split: if_splits prod.splits sum.splits
             dest: embedAttempts_error)
qed

lemma embedAttempts_store':
  "embedAttempts n env w batch = (r, w') \<Longrightarrow>
   collection w' = collection w \<and> storeFaults w' = storeFaults w"
  using embedAttempts_store[of n env w batch] by simp

lemma embedLoop_store:
  "embedLoop env w remaining acc = (r, w') \<Longrightarrow>
   collection w' = collection w \<and> storeFaults w' = storeFaults w"
proof (induction env w remaining acc rule: embedLoop.induct)
  case (1 env w remainingTexts allEmbeddings)
  show ?case
    using "1.prems" "1.IH"
    by (subst (asm) embedLoop.simps)
       (auto simp: embedBatchWithRetries_def split: if_splits prod.splits sum.splits
             dest!: embedAttempts_store')
qed

lemma createEmbeddings_error:
  "createEmbeddings env w texts = (Inl e, w') \<Longrightarrow> e = EmbeddingError"
  by (auto simp: createEmbeddings_def split: if_splits dest: embedLoop_error)

lemma createEmbeddings_store:
  "collection (snd (createEmbeddings env w texts)) = collection w \<and>
   storeFaults (snd (createEmbeddings env w texts)) = storeFaults w"
  using embedLoop_store[of env w texts "[]"]
  by (cases "embedLoop env w texts []") (simp add: createEmbeddings_def)


lemma nextFault_request:
  "request w = (fst (nextFault (storeFaults w)), w\<lparr>storeFaults := snd (nextFault (storeFaults w))\<rparr>)"
  by (cases "storeFaults w") (simp_all add: request_def)

lemma collectionExists_iff:
  "fst (collectionExists w) \<longleftrightarrow> collection w \<noteq> None \<and> \<not> fst (nextFault (storeFaults w))"
  by (simp add: collectionExists_def getCollectionInfo_def getCollection_def nextFault_request
           split: prod.splits bool.splits)

lemma collectionExists_collection [simp]:
  "collection (snd (collectionExists w)) = collection w"
  by (simp add: collectionExists_def getCollectionInfo_def getCollection_def nextFault_request
           split: prod.splits bool.splits)

lemma searchSimilar_error:
  "searchSimilar env v limit m w = (Inl e, w') \<Longrightarrow> e = StoreError"
  by (auto simp: searchSimilar_def split: prod.splits option.splits)

lemma search_not_indexed:
  "fst (search env q options (ix, w)) = Inl NotIndexedError \<longleftrightarrow> \<not> fst (collectionExists w)"
proof (cases "collectionExists w")
  case (Pair ex w1)
  show ?thesis
  proof (cases ex)
    case False
    with Pair show ?thesis by (simp add: search_def)
  next
    case True
    obtain r w2 where ce: "createEmbeddings env w1 [q] = (r, w2)"
      by (cases "createEmbeddings env w1 [q]")
    show ?thesis
    proof (cases r)
      case (Inl e)
      with ce have "e = EmbeddingError" by (auto dest: createEmbeddings_error)
      with Pair True ce Inl show ?thesis by (simp add: search_def)
    next
      case (Inr embs)
      show ?thesis
      proof (cases embs)
        case Nil
        with Pair True ce Inr show ?thesis by (simp add: search_def)
      next
        case (Cons v vs)
        with Pair True ce Inr show ?thesis
          by (auto simp: search_def Let_def split: prod.splits sum.splits
                   dest: searchSimilar_error)
      qed
    qed
  qed
qed

section \<open>The operation state machine\<close>

text \<open>
  Claim C6. Whenever \<open>indexDirectory\<close> is called while the state is \<open>indexing\<close>, the
  call fails at once with the reentrancy error, and the indexer and the whole world (the
  collection and the requests still to come, so no request was made) are as before.
\<close>

theorem indexDirectory_reentrancy:
  "state ix = Indexing \<Longrightarrow>
   indexDirectory env directoryPath onProgress (ix, w) = (Inl ReentrancyError, ix, w)"
  by (simp add: indexDirectory_def)

theorem indexDirectory_reentrancy_witness:
  "state (newIndexer\<lparr>state := Indexing\<rparr>) = Indexing \<and>
   indexDirectory quietEnv ''/repo'' None
     (newIndexer\<lparr>state := Indexing\<rparr>,
      \<lparr>collection = Some emptyCollection, storeFaults = [True], embedFaults = []\<rparr>)
   = (Inl ReentrancyError, newIndexer\<lparr>state := Indexing\<rparr>,
      \<lparr>collection = Some emptyCollection, storeFaults = [True], embedFaults = []\<rparr>)"
  using indexDirectory_reentrancy[of "newIndexer\<lparr>state := Indexing\<rparr>" quietEnv "''/repo''" None
          "\<lparr>collection = Some emptyCollection, storeFaults = [True], embedFaults = []\<rparr>"]
  by simp

text \<open>
  Claim C4, as stated, fails: with the state \<open>watching\<close> and a \<open>deleteCollection\<close>
  request that throws, \<open>clearIndex\<close> throws and the state is still \<open>watching\<close>.
\<close>

theorem clearIndex_throw_keeps_watching:
  "fst (clearIndex (newIndexer\<lparr>state := Watching\<rparr>,
          \<lparr>collection = Some emptyCollection, storeFaults = [True], embedFaults = []\<rparr>))
     = Inl StoreError \<and>
   state (fst (snd (clearIndex (newIndexer\<lparr>state := Watching\<rparr>,
          \<lparr>collection = Some emptyCollection, storeFaults = [True], embedFaults = []\<rparr>))))
     = Watching"
  by (simp add: clearIndex_def clearCollection_def deleteCollection_def request_def)

text \<open>
  Claim C4, amended. From every starting state \<open>clearIndex\<close> either completes and leaves
  the state \<open>idle\<close>, or throws and leaves the indexer as it was; so after a throw the
  state is \<open>indexing\<close> or \<open>watching\<close> exactly when it was so before the call.
\<close>

theorem clearIndex_state:
  "clearIndex (ix, w) = (r, ix', w') \<Longrightarrow>
   (case r of Inr u \<Rightarrow> state ix' = Idle | Inl e \<Rightarrow> ix' = ix)"
  by (auto simp: clearIndex_def split: prod.splits sum.splits)

theorem clearIndex_state_witness:
  "clearIndex (newIndexer\<lparr>state := Indexing\<rparr>,
      \<lparr>collection = Some emptyCollection, storeFaults = [], embedFaults = []\<rparr>)
   = (Inr (), newIndexer\<lparr>state := Idle\<rparr>,
      \<lparr>collection = Some emptyCollection, storeFaults = [], embedFaults = []\<rparr>) \<and>
   state (newIndexer\<lparr>state := Idle\<rparr>) = Idle"
proof -
  have ev: "clearIndex (newIndexer\<lparr>state := Indexing\<rparr>,
      \<lparr>collection = Some emptyCollection, storeFaults = [], embedFaults = []\<rparr>)
   = (Inr (), newIndexer\<lparr>state := Idle\<rparr>,
      \<lparr>collection = Some emptyCollection, storeFaults = [], embedFaults = []\<rparr>)"
    by (simp add: clearIndex_def clearCollection_def deleteCollection_def request_def
          initialize_def getCollectionInfo_def getCollection_def createCollection_def
          createPayloadIndexes_def createPayloadIndex_def emptyCollection_def)
  from clearIndex_state[OF ev] ev show ?thesis by simp
qed

text \<open>
  Claim C5, as stated, fails: the collection exists, the \<open>getCollection\<close> request of the
  existence check throws, and \<open>search\<close> fails with the "not indexed" error.
\<close>

theorem search_not_indexed_on_fault:
  "collection \<lparr>collection = Some emptyCollection, storeFaults = [True], embedFaults = []\<rparr> \<noteq> None \<and>
   fst (search quietEnv ''foo'' \<lparr>minScore = None, maxResults = None, includeSnippet = None\<rparr>
         (newIndexer, \<lparr>collection = Some emptyCollection, storeFaults = [True], embedFaults = []\<rparr>))
     = Inl NotIndexedError"
  by (simp add: search_def collectionExists_def getCollectionInfo_def getCollection_def request_def)

text \<open>
  Claim C5, amended. \<open>search\<close> may be called in every in-memory state and its outcome
  does not depend on that state; it fails with the "not indexed" error exactly when the
  store's existence check reports absence, that is when the collection does not exist
  or the \<open>getCollection\<close> request throws for another reason. So a freshly restarted
  process (state \<open>idle\<close>) can search a previously built index that the store can report.
\<close>

theorem search_not_indexed_iff:
  "(fst (search env q options (ix, w)) = Inl NotIndexedError \<longleftrightarrow>
      collection w = None \<or> fst (nextFault (storeFaults w))) \<and>
   fst (search env q options (ix\<lparr>state := s\<rparr>, w)) = fst (search env q options (ix, w))"
proof
  show "fst (search env q options (ix, w)) = Inl NotIndexedError \<longleftrightarrow>
      collection w = None \<or> fst (nextFault (storeFaults w))"
    by (simp add: search_not_indexed collectionExists_iff)
  show "fst (search env q options (ix\<lparr>state := s\<rparr>, w)) = fst (search env q options (ix, w))"
    by (simp add: search_def Let_def split: prod.splits sum.splits list.splits bool.splits)
qed

theorem search_not_indexed_iff_witness:
  "fst (search quietEnv ''foo'' \<lparr>minScore = None, maxResults = None, includeSnippet = None\<rparr>
         (newIndexer, \<lparr>collection = Some emptyCollection, storeFaults = [], embedFaults = []\<rparr>))
     \<noteq> Inl NotIndexedError"
  using search_not_indexed_iff[of quietEnv "''foo''"
          "\<lparr>minScore = None, maxResults = None, includeSnippet = None\<rparr>" newIndexer
          "\<lparr>collection = Some emptyCollection, storeFaults = [], embedFaults = []\<rparr>" Idle]
  by simp

lemma createPayloadIndexes_collection [simp]:
  "collection (createPayloadIndexes w) = collection w"
  by (simp add: createPayloadIndexes_def createPayloadIndex_def nextFault_request
           split: prod.splits bool.splits)

lemma initialize_absent:
  "collection w = None \<Longrightarrow> initialize w = (Inr (), w') \<Longrightarrow>
   collection w' = Some emptyCollection"
  by (auto simp: initialize_def getCollectionInfo_def getCollection_def createCollection_def
        nextFault_request emptyCollection_def
        split: prod.splits bool.splits option.splits if_splits)

lemma clearCollection_recreates:
  "clearCollection w = (Inr (), w') \<Longrightarrow> collection w' = Some emptyCollection"
proof -
  assume a: "clearCollection w = (Inr (), w')"
  obtain ok w1 where d: "deleteCollection w = (ok, w1)" by (cases "deleteCollection w")
  with a have i: "ok" "initialize w1 = (Inr (), w')"
    by (auto simp: clearCollection_def split: bool.splits)
  from d i(1) have "collection w1 = None"
    by (auto simp: deleteCollection_def nextFault_request split: bool.splits)
  then show ?thesis using i(2) by (rule initialize_absent)
qed

lemma search_empty_collection:
  assumes "collection w = Some emptyCollection"
    and "fst (search env q options (ix, w)) = Inr rs"
  shows "rs = []"
proof -
  obtain ex w1 where ce: "collectionExists w = (ex, w1)" by (cases "collectionExists w")
  have c1: "collection w1 = Some emptyCollection"
    using collectionExists_collection[of w] ce assms(1) by simp
  obtain r w2 where em: "createEmbeddings env w1 [q] = (r, w2)"
    by (cases "createEmbeddings env w1 [q]")
  have c2: "collection w2 = Some emptyCollection"
    using createEmbeddings_store[of env w1 "[q]"] em c1 by simp
  show ?thesis
    using assms(2) ce em c2
    by (auto simp: search_def Let_def searchSimilar_def searchPoints_def nextFault_request
          scoredPoints_def emptyCollection_def
          split: prod.splits sum.splits list.splits bool.splits option.splits if_splits)
qed

text \<open>
  Claim C10, as stated, fails: \<open>clearIndex\<close> succeeds, the \<open>getCollection\<close> request of
  the search that follows throws, and that search fails with the "not indexed" error.
\<close>

theorem search_after_clearIndex_fault:
  "fst (clearIndex (newIndexer,
         \<lparr>collection = Some emptyCollection,
          storeFaults = [False, False, False, False, False, False, True],
          embedFaults = []\<rparr>)) = Inr () \<and>
   fst (search quietEnv ''foo'' \<lparr>minScore = None, maxResults = None, includeSnippet = None\<rparr>
         (snd (clearIndex (newIndexer,
           \<lparr>collection = Some emptyCollection,
            storeFaults = [False, False, False, False, False, False, True],
            embedFaults = []\<rparr>)))) = Inl NotIndexedError"
  by (simp add: clearIndex_def clearCollection_def deleteCollection_def request_def
        initialize_def getCollectionInfo_def getCollection_def createCollection_def
        createPayloadIndexes_def createPayloadIndex_def search_def collectionExists_def)

text \<open>
  Claim C10, amended. After every successful \<open>clearIndex\<close> the backing collection
  exists again, empty and with the configured vector size. A search issued right after
  fails with the "not indexed" error only if the request of its existence check throws;
  and whenever it returns results, it returns none.
\<close>

theorem clearIndex_recreates_collection:
  assumes "clearIndex (ix, w) = (Inr (), ix', w')"
  shows "collection w' = Some emptyCollection \<and>
         (\<not> fst (nextFault (storeFaults w')) \<longrightarrow>
            fst (search env q options (ix', w')) \<noteq> Inl NotIndexedError) \<and>
         (\<forall>rs. fst (search env q options (ix', w')) = Inr rs \<longrightarrow> rs = [])"
proof -
  from assms have cc: "clearCollection w = (Inr (), w')"
    by (auto simp: clearIndex_def split: prod.splits sum.splits)
  then have c: "collection w' = Some emptyCollection" by (rule clearCollection_recreates)
  then show ?thesis
    by (auto simp: search_not_indexed collectionExists_iff dest: search_empty_collection)
qed

theorem clearIndex_recreates_collection_witness:
  "clearIndex (newIndexer\<lparr>state := Indexed\<rparr>,
      \<lparr>collection = None, storeFaults = [], embedFaults = []\<rparr>)
   = (Inr (), newIndexer\<lparr>state := Idle\<rparr>,
      \<lparr>collection = Some emptyCollection, storeFaults = [], embedFaults = []\<rparr>) \<and>
   fst (search quietEnv ''foo'' \<lparr>minScore = None, maxResults = None, includeSnippet = None\<rparr>
         (newIndexer\<lparr>state := Idle\<rparr>,
          \<lparr>collection = Some emptyCollection, storeFaults = [], embedFaults = []\<rparr>))
     \<noteq> Inl NotIndexedError"
proof -
  have ev: "clearIndex (newIndexer\<lparr>state := Indexed\<rparr>,
      \<lparr>collection = None, storeFaults = [], embedFaults = []\<rparr>)
   = (Inr (), newIndexer\<lparr>state := Idle\<rparr>,
      \<lparr>collection = Some emptyCollection, storeFaults = [], embedFaults = []\<rparr>)"
    by (simp add: clearIndex_def clearCollection_def deleteCollection_def request_def
          initialize_def getCollectionInfo_def getCollection_def createCollection_def
          createPayloadIndexes_def createPayloadIndex_def emptyCollection_def)
  from clearIndex_recreates_collection[OF ev, of quietEnv "''foo''"
         "\<lparr>minScore = None, maxResults = None, includeSnippet = None\<rparr>"] ev
  show ?thesis by simp
qed

section \<open>Embedding a batch of blocks\<close>

lemma embedAttempts_no_fault:
  "embedFaults w = [] \<Longrightarrow> 0 < n \<Longrightarrow>
   embedAttempts n env w batch = (Inr (map (embedText env) batch), w)"
  by (cases n) (simp_all add: embeddingsCreate_def)

lemma embedBatchWithRetries_no_fault:
  "embedFaults w = [] \<Longrightarrow>
   embedBatchWithRetries env w batch = (Inr (map (embedText env) batch), w)"
  by (simp add: embedBatchWithRetries_def MAX_BATCH_RETRIES_def embedAttempts_no_fault)

text \<open>
  A batch of two blocks as the line-based chunker yields them for a file whose first line
  has 32765 characters: the first block is over the per-item ceiling of 8191 tokens.
\<close>

definition longBlock :: CodeBlock where
  "longBlock =
     \<lparr> idC = ''id-of-long-block'', filePath = ''/repo/min.js'',
       content = replicate 32765 CHR ''x'', language = ''javascript'',
       startLine = 1, endLine = 1, typeC = Other, name = None,
       metadata = \<lparr> fileExtension = ''.js'', lineCount = 1, charCount = 32765,
                    astNode = None, captureType = None, parsingMethod = LineBased \<rparr> \<rparr>"

definition shortBlock :: CodeBlock where
  "shortBlock =
     \<lparr> idC = ''id-of-short-block'', filePath = ''/repo/min.js'',
       content = ''function add(a, b) { return a + b; } // sum of two numbers'',
       language = ''javascript'',
       startLine = 2, endLine = 2, typeC = Function, name = None,
       metadata = \<lparr> fileExtension = ''.js'', lineCount = 1, charCount = 58,
                    astNode = None, captureType = None, parsingMethod = LineBased \<rparr> \<rparr>"

text \<open>
  Claim C2 does not hold of the code. When the first of two blocks is over the per-item
  ceiling and the second is not, \<open>createEmbeddings\<close> returns the single embedding of the
  second block's content, and \<open>processBatch\<close> upserts the first block with that
  embedding and the second block with no vector at all.
\<close>

theorem processBatch_misaligned:
  assumes big: "MAX_ITEM_TOKENS < itemTokens (content b1)"
    and small: "itemTokens (content b2) \<le> MAX_ITEM_TOKENS"
    and ok: "embedFaults w = []"
  shows "createEmbeddings env w (map content [b1, b2]) = (Inr [embedText env (content b2)], w) \<and>
         processBatch env w [b1, b2] =
           upsertPoints
             [\<lparr>idP = idC b1, vector = Some (embedText env (content b2)), payload = b1\<rparr>,
              \<lparr>idP = idC b2, vector = None, payload = b2\<rparr>] w"
proof -
  have bb: "buildBatch [content b1, content b2] 0 [] 0 [] = ([content b2], [0, Suc 0])"
    using big small by (simp add: MAX_ITEM_TOKENS_def MAX_BATCH_TOKENS_def)
  have rm: "removeProcessed [0, Suc 0] [content b1, content b2] = []"
    by (simp add: removeProcessed_def splice1_def)
  have last: "embedLoop env w [] [embedText env (content b2)] = (Inr [embedText env (content b2)], w)"
    by (subst embedLoop.simps) simp
  have "embedLoop env w [content b1, content b2] [] = (Inr [embedText env (content b2)], w)"
    by (subst embedLoop.simps)
       (simp add: bb rm last embedBatchWithRetries_no_fault[OF ok] del: buildBatch.simps)
  then have ce: "createEmbeddings env w (map content [b1, b2]) = (Inr [embedText env (content b2)], w)"
    by (simp add: createEmbeddings_def)
  have vp: "vectorPoints [b1, b2] [embedText env (content b2)] =
      [\<lparr>idP = idC b1, vector = Some (embedText env (content b2)), payload = b1\<rparr>,
       \<lparr>idP = idC b2, vector = None, payload = b2\<rparr>]"
    by (simp add: vectorPoints_def upt_rec)
  show ?thesis using ce vp by (simp add: processBatch_def)
qed

theorem processBatch_misaligned_witness:
  "processBatch quietEnv \<lparr>collection = Some emptyCollection, storeFaults = [], embedFaults = []\<rparr>
     [longBlock, shortBlock] =
   upsertPoints
     [\<lparr>idP = ''id-of-long-block'', vector = Some (embedText quietEnv (content shortBlock)),
       payload = longBlock\<rparr>,
      \<lparr>idP = ''id-of-short-block'', vector = None, payload = shortBlock\<rparr>]
     \<lparr>collection = Some emptyCollection, storeFaults = [], embedFaults = []\<rparr> \<and>
   embedText quietEnv (content shortBlock) \<noteq> embedText quietEnv (content longBlock)"
proof -
  have big: "MAX_ITEM_TOKENS < itemTokens (content longBlock)"
    by (simp add: longBlock_def itemTokens_def MAX_ITEM_TOKENS_def)
  have small: "itemTokens (content shortBlock) \<le> MAX_ITEM_TOKENS"
    by (simp add: shortBlock_def itemTokens_def MAX_ITEM_TOKENS_def)
  have ids: "idC longBlock = ''id-of-long-block''" "idC shortBlock = ''id-of-short-block''"
    by (simp_all add: longBlock_def shortBlock_def)
  have ne: "embedText quietEnv (content shortBlock) \<noteq> embedText quietEnv (content longBlock)"
    by (simp add: quietEnv_def longBlock_def shortBlock_def)
  from processBatch_misaligned[OF big small, of
         "\<lparr>collection = Some emptyCollection, storeFaults = [], embedFaults = []\<rparr>" quietEnv]
  show ?thesis using ids ne by simp
qed

section \<open>Scanning a directory\<close>

text \<open>The files that \<open>scanDirectory\<close> hands to its tasks.\<close>

definition supportedFiles :: "Env \<Rightarrow> string \<Rightarrow> string list" where
  "supportedFiles env directoryPath =
     filter (\<lambda>f. \<not> ignores env (pathRelative directoryPath f)) (getAllFiles env directoryPath)"

lemma fileTask_quiet:
  assumes "\<And>p. callProgress onProgress p = None"
  shows "fst (fileTask env onProgress (bs, p) fp) = bs @ processFile env fp \<and>
         errors (snd (fileTask env onProgress (bs, p) fp)) = errors p \<and>
         processedFiles (snd (fileTask env onProgress (bs, p) fp)) = processedFiles p + 1 \<and>
         totalFiles (snd (fileTask env onProgress (bs, p) fp)) = totalFiles p"
  by (simp add: fileTask_def Let_def assms)

lemma foldl_fileTask_quiet:
  assumes "\<And>p. callProgress onProgress p = None"
  shows "fst (foldl (fileTask env onProgress) (bs, p) fs) = bs @ concat (map (processFile env) fs) \<and>
         errors (snd (foldl (fileTask env onProgress) (bs, p) fs)) = errors p \<and>
         processedFiles (snd (foldl (fileTask env onProgress) (bs, p) fs)) = processedFiles p + length fs \<and>
         totalFiles (snd (foldl (fileTask env onProgress) (bs, p) fs)) = totalFiles p"
proof (induction fs arbitrary: bs p)
  case Nil
  then show ?case by simp
next
  case (Cons f fs)
  obtain bs' p' where step: "fileTask env onProgress (bs, p) f = (bs', p')"
    by (cases "fileTask env onProgress (bs, p) f")
  with fileTask_quiet[OF assms, of env bs p f]
  have "bs' = bs @ processFile env f" "errors p' = errors p"
    "processedFiles p' = processedFiles p + 1" "totalFiles p' = totalFiles p"
    by simp_all
  with Cons.IH[of bs' p'] step show ?case by simp
qed

lemma processFile_failures:
  "statSize env fp = None \<Longrightarrow> processFile env fp = []"
  "readFile env fp = None \<Longrightarrow> processFile env fp = []"
  by (auto simp: processFile_def parseFile_def Let_def split: option.splits)

text \<open>
  A directory with two files: \<open>gone.js\<close>, whose \<open>stat\<close> throws, and \<open>locked.js\<close>,
  whose \<open>readFile\<close> throws.
\<close>

definition failingEnv :: Env where
  "failingEnv =
     \<lparr> readFile = (\<lambda>p. None),
       statSize = (\<lambda>p. if p = ''/repo/locked.js'' then Some 120 else None),
       query = (\<lambda>p c. None),
       readdir = (\<lambda>p. if p = ''/repo'' then Some [FileNode ''gone.js'', FileNode ''locked.js''] else None),
       ignores = (\<lambda>p. False),
       embedText = (\<lambda>s. [real (length s)]), similarity = (\<lambda>u v. 1) \<rparr>"

text \<open>
  Claim C3 does not hold of the code in one part. With a progress callback that does not
  throw (or none), the scan completes without throwing, every file is counted as
  processed and the blocks are those of each file on its own, a file whose \<open>stat\<close>,
  read or chunking fails giving none; but the error list of the progress record stays
  empty whatever fails: no failure of a file is appended to it.
\<close>

theorem scanDirectory_records_no_file_failure:
  assumes "\<And>p. callProgress onProgress p = None"
  shows "\<exists>p. scanDirectory env directoryPath onProgress =
               Inr (concat (map (processFile env) (supportedFiles env directoryPath)), p) \<and>
             errors p = [] \<and>
             processedFiles p = length (supportedFiles env directoryPath) \<and>
             stage p = Completed"
proof -
  let ?fs = "supportedFiles env directoryPath"
  let ?p0 = "\<lparr> totalFiles = length ?fs, processedFiles = 0, currentFile = [],
                stage = Scanning, errors = [] \<rparr>"
  obtain bs p where run: "foldl (fileTask env onProgress) ([], ?p0) ?fs = (bs, p)"
    by (cases "foldl (fileTask env onProgress) ([], ?p0) ?fs")
  with foldl_fileTask_quiet[OF assms, of env "[]" ?p0 ?fs]
  have "bs = concat (map (processFile env) ?fs)" "errors p = []"
    "processedFiles p = length ?fs" by simp_all
  with run show ?thesis
    by (simp add: scanDirectory_def Let_def assms supportedFiles_def[symmetric])
qed

theorem scanDirectory_records_no_file_failure_witness:
  "scanDirectory failingEnv ''/repo'' None =
     Inr ([], \<lparr> totalFiles = 2, processedFiles = 2, currentFile = ''/repo/locked.js'',
                stage = Completed, errors = [] \<rparr>)"
proof -
  have files: "getAllFiles failingEnv ''/repo'' = [''/repo/gone.js'', ''/repo/locked.js'']"
    by (simp add: getAllFiles_def failingEnv_def pathJoin_def)
  have gone: "processFile failingEnv ''/repo/gone.js'' = []"
    by (rule processFile_failures(1)) (simp add: failingEnv_def)
  have locked: "processFile failingEnv ''/repo/locked.js'' = []"
    by (rule processFile_failures(2)) (simp add: failingEnv_def)
  have ign: "\<And>p. ignores failingEnv p = False" by (simp add: failingEnv_def)
  have ev: "scanDirectory failingEnv ''/repo'' None =
     Inr ([], \<lparr> totalFiles = 2, processedFiles = 2, currentFile = ''/repo/locked.js'',
                stage = Completed, errors = [] \<rparr>)"
    by (simp add: scanDirectory_def Let_def callProgress_def files ign fileTask_def gone locked)
  from scanDirectory_records_no_file_failure[of None failingEnv "''/repo''"] ev
  show ?thesis by (simp add: callProgress_def)
qed

lemma fileTask_callback_error:
  "callProgress onProgress (p\<lparr>currentFile := fp, stage := Parsing\<rparr>) = Some msg \<Longrightarrow>
   errors (snd (fileTask env onProgress (bs, p) fp)) =
     errors p @ [''Error processing '' @ fp @ '': '' @ msg]"
  by (simp add: fileTask_def Let_def)

section \<open>Debouncing\<close>

text \<open>
  The calls (or events) of one path, the pending timers of one path, the call a timer
  makes, all calls of a run, and the calls that a path is due given its pending timers and
  the events still to come.
\<close>

definition callsFor :: "string \<Rightarrow> (nat \<times> string \<times> ChangeType) list \<Rightarrow> (nat \<times> string \<times> ChangeType) list" where
  "callsFor fp calls = filter (\<lambda>(t, p, ty). p = fp) calls"





lemma callsFor_simps [simp]:
  "callsFor fp [] = []"
  "callsFor fp ((t, p, ty) # xs) = (if p = fp then (t, p, ty) # callsFor fp xs else callsFor fp xs)"
  "callsFor fp (xs @ ys) = callsFor fp xs @ callsFor fp ys"
  by (simp_all add: callsFor_def)







lemma debounceCallback_debounceMs [simp]:
  "debounceMs (debounceCallback t q ty fw) = debounceMs fw"
  by (simp add: debounceCallback_def)




section \<open>Structural chunking\<close>

text \<open>Reading a decimal rendering back.\<close>

definition digitVal :: "char \<Rightarrow> nat" where
  "digitVal c = of_char c - 48"

definition undecimal :: "string \<Rightarrow> nat" where
  "undecimal s = foldl (\<lambda>a c. 10 * a + digitVal c) 0 s"

lemma digit_cases:
  assumes "d < (10::nat)"
  obtains "d = 0" | "d = 1" | "d = 2" | "d = 3" | "d = 4" | "d = 5" | "d = 6" | "d = 7"
    | "d = 8" | "d = 9"
proof -
  from assms have "d = 0 \<or> d = 1 \<or> d = 2 \<or> d = 3 \<or> d = 4 \<or> d = 5 \<or> d = 6 \<or> d = 7
      \<or> d = 8 \<or> d = 9" by presburger
  then show ?thesis using that by blast
qed

lemma digitVal_digitChar: "d < 10 \<Longrightarrow> digitVal (digitChar d) = d"
  by (erule digit_cases) (simp_all add: digitVal_def digitChar_def)

lemma digitChar_in_digits: "d < 10 \<Longrightarrow> digitChar d \<in> set ''0123456789''"
  by (erule digit_cases) (simp_all add: digitChar_def)

lemma undecimal_decimal: "undecimal (decimal n) = n"
proof (induction n rule: decimal.induct)
  case (1 n)
  show ?case
  proof (cases "n < 10")
    case True
    then show ?thesis
      by (subst decimal.simps) (simp add: undecimal_def digitVal_digitChar)
  next
    case False
    with 1 have "undecimal (decimal (n div 10)) = n div 10" by simp
    with False show ?thesis
      by (subst decimal.simps) (simp add: undecimal_def digitVal_digitChar)
  qed
qed

lemma decimal_inj: "decimal m = decimal n \<Longrightarrow> m = n"
  by (metis undecimal_decimal)

lemma decimal_digits: "set (decimal n) \<subseteq> set ''0123456789''"
proof (induction n rule: decimal.induct)
  case (1 n)
  show ?case
  proof (cases "n < 10")
    case True
    then show ?thesis
      using digitChar_in_digits[of n] by (subst decimal.simps) simp
  next
    case False
    with 1 have "set (decimal (n div 10)) \<subseteq> set ''0123456789''" by simp
    with False show ?thesis
      using digitChar_in_digits[of "n mod 10"] by (subst decimal.simps) simp
  qed
qed

lemma decimal_no_sep: "CHR ''-'' \<notin> set (decimal n)" "CHR '':'' \<notin> set (decimal n)"
  using decimal_digits[of n] by auto

lemma rangeKey_inj: "rangeKey sl el = rangeKey sl' el' \<longleftrightarrow> sl = sl' \<and> el = el'"
proof -
  have "decimal sl @ CHR ''-'' # decimal el = decimal sl' @ CHR ''-'' # decimal el' \<longleftrightarrow>
      decimal sl = decimal sl' \<and> decimal el = decimal el'"
    by (rule append_Cons_eq_iff) (rule decimal_no_sep)+
  then show ?thesis by (auto simp: rangeKey_def dest: decimal_inj)
qed

text \<open>
  The structural chunking said in one expression: of the captures, in the order given,
  those that denote a definition with a node of at least three lines and at least
  \<open>MIN_BLOCK_CHARS\<close> characters of trimmed content; of these the first of each span; and
  of each of these its block.
\<close>

definition captureSpan :: "Capture \<Rightarrow> (nat \<times> nat) option" where
  "captureSpan capture =
     (if \<not> includesStr (captureName capture) ''definition'' \<and>
         \<not> includesStr (captureName capture) ''name'' then None
      else map_option (\<lambda>d. (row (nodeStart d), row (nodeEnd d))) (definitionNode capture))"

definition spanContent :: "string list \<Rightarrow> nat \<times> nat \<Rightarrow> string" where
  "spanContent lines sp = joinWith [CHR 0x0A] (slice (fst sp) (snd sp + 1) lines)"

definition eligible :: "string list \<Rightarrow> Capture \<Rightarrow> bool" where
  "eligible lines capture =
     (case captureSpan capture of
        None \<Rightarrow> False
      | Some sp \<Rightarrow> 3 \<le> int (snd sp) - int (fst sp) + 1 \<and>
                  MIN_BLOCK_CHARS \<le> length (trim (spanContent lines sp)))"

fun firstOfEachSpan :: "Capture list \<Rightarrow> (nat \<times> nat) list \<Rightarrow> Capture list" where
  "firstOfEachSpan [] seen = []"
| "firstOfEachSpan (c # cs) seen =
     (case captureSpan c of
        None \<Rightarrow> firstOfEachSpan cs seen
      | Some sp \<Rightarrow> if sp \<in> set seen then firstOfEachSpan cs seen
                  else c # firstOfEachSpan cs (sp # seen))"

definition blockOfCapture :: "string \<Rightarrow> string \<Rightarrow> string list \<Rightarrow> Capture \<Rightarrow> CodeBlock" where
  "blockOfCapture fp lang lines capture =
     (case captureSpan capture of
        None \<Rightarrow> captureBlock fp lang [] capture 0 0
      | Some sp \<Rightarrow> captureBlock fp lang (spanContent lines sp) capture (fst sp) (snd sp))"

lemma processCaptures_refines:
  assumes "set processedRanges = (\<lambda>sp. rangeKey (fst sp) (snd sp)) ` set seen"
  shows "processCaptures fp lang lines captures blocks processedRanges =
           blocks @ map (blockOfCapture fp lang lines)
                      (firstOfEachSpan (filter (eligible lines) captures) seen)"
  using assms
proof (induction captures arbitrary: blocks processedRanges seen)
  case Nil
  then show ?case by simp
next
  case (Cons c cs)
  have key: "\<And>sl el. rangeKey sl el \<in> set processedRanges \<longleftrightarrow> (sl, el) \<in> set seen"
    using Cons.prems by (force simp: rangeKey_inj)
  show ?case
  proof (cases "captureSpan c")
    case None
    then have "\<not> eligible lines c" by (simp add: eligible_def)
    moreover have "processCaptures fp lang lines (c # cs) blocks processedRanges =
        processCaptures fp lang lines cs blocks processedRanges"
      using None by (auto simp: captureSpan_def split: if_splits option.splits)
    ultimately show ?thesis using Cons.IH[OF Cons.prems] by simp
  next
    case (Some sp)
    obtain sl el where sp: "sp = (sl, el)" by (cases sp)
    from Some sp obtain d where d: "definitionNode c = Some d" "row (nodeStart d) = sl"
      "row (nodeEnd d) = el"
      and isdef: "\<not> (\<not> includesStr (captureName c) ''definition'' \<and>
                      \<not> includesStr (captureName c) ''name'')"
      by (auto simp: captureSpan_def split: if_splits)
    show ?thesis
    proof (cases "eligible lines c")
      case False
      then have short: "int el - int sl + 1 < 3 \<or>
          length (trim (joinWith [CHR 0x0A] (slice sl (el + 1) lines))) < MIN_BLOCK_CHARS"
        using Some sp by (auto simp: eligible_def spanContent_def)
      have "processCaptures fp lang lines (c # cs) blocks processedRanges =
          processCaptures fp lang lines cs blocks processedRanges"
        using d isdef short by (auto simp: Let_def)
      with False show ?thesis using Cons.IH[OF Cons.prems] by simp
    next
      case True
      then have long: "\<not> int el - int sl + 1 < 3"
        "\<not> length (trim (joinWith [CHR 0x0A] (slice sl (el + 1) lines))) < MIN_BLOCK_CHARS"
        using Some sp by (auto simp: eligible_def spanContent_def)
      show ?thesis
      proof (cases "(sl, el) \<in> set seen")
        case seen: True
        have "processCaptures fp lang lines (c # cs) blocks processedRanges =
            processCaptures fp lang lines cs blocks processedRanges"
          using d isdef long seen key by (auto simp: Let_def)
        with True seen Some sp show ?thesis using Cons.IH[OF Cons.prems] by simp
      next
        case fresh: False
        have step: "processCaptures fp lang lines (c # cs) blocks processedRanges =
            processCaptures fp lang lines cs
              (blocks @ [captureBlock fp lang (joinWith [CHR 0x0A] (slice sl (el + 1) lines)) c sl el])
              (processedRanges @ [rangeKey sl el])"
          using d isdef long fresh key by (auto simp: Let_def)
        have inv: "set (processedRanges @ [rangeKey sl el]) =
            (\<lambda>sp. rangeKey (fst sp) (snd sp)) ` set ((sl, el) # seen)"
          using Cons.prems by auto
        have blk: "blockOfCapture fp lang lines c =
            captureBlock fp lang (joinWith [CHR 0x0A] (slice sl (el + 1) lines)) c sl el"
          using Some sp by (simp add: blockOfCapture_def spanContent_def)
        show ?thesis
          using True fresh Some sp step blk Cons.IH[OF inv] by simp
      qed
    qed
  qed
qed

lemma startLine_captureBlock [simp]:
  "startLine (captureBlock fp lang c capture sl el) = sl + 1"
  "endLine (captureBlock fp lang c capture sl el) = el + 1"
  by (simp_all add: captureBlock_def createCodeBlock_def Let_def)























section \<open>Re-indexing a changed file\<close>

text \<open>Every block that \<open>parseFile\<close> returns for a path carries that path.\<close>

lemma filePath_createCodeBlock [simp]: "filePath (createCodeBlock fp c lang sl el nm) = fp"
  by (simp add: createCodeBlock_def)

lemma filePath_captureBlock [simp]: "filePath (captureBlock fp lang c capture sl el) = fp"
  by (simp add: captureBlock_def Let_def)

lemma filePath_blockOfCapture [simp]: "filePath (blockOfCapture fp lang lines c) = fp"
  by (simp add: blockOfCapture_def split: option.splits)

lemma parseWithTreeSitter_filePath:
  "parseWithTreeSitter q fp c = Some bs \<Longrightarrow> b \<in> set bs \<Longrightarrow> filePath b = fp"
  using processCaptures_refines[of "[]" "[]" fp _ "splitOn CHR 0x0A c" _ "[]"]
  by (auto simp: parseWithTreeSitter_def Let_def split: option.splits)

lemma emitChunk_filePath: "b \<in> set (emitChunk fp lang cur sl) \<Longrightarrow> filePath b = fp"
  by (auto simp: emitChunk_def Let_def split: if_splits)

lemma chunkLoop_filePath:
  "chunkLoop fp lang lines i blocks cur chars sl = (bs, cur', sl') \<Longrightarrow>
   \<forall>b \<in> set blocks. filePath b = fp \<Longrightarrow> \<forall>b \<in> set bs. filePath b = fp"
proof (induction lines arbitrary: i blocks cur chars sl)
  case Nil
  then show ?case by simp
next
  case (Cons line rest)
  show ?case
  proof (cases "chars + (length line + 1) > MAX_BLOCK_CHARS \<and> cur \<noteq> []")
    case True
    with Cons.prems(1)
    have "chunkLoop fp lang rest (i + 1) (blocks @ emitChunk fp lang cur sl) [line]
            (length line + 1) (i + 1) = (bs, cur', sl')"
      by (simp add: Let_def)
    moreover have "\<forall>b \<in> set (blocks @ emitChunk fp lang cur sl). filePath b = fp"
      using Cons.prems(2) by (auto dest: emitChunk_filePath)
    ultimately show ?thesis by (rule Cons.IH)
  next
    case False
    with Cons.prems(1)
    have "chunkLoop fp lang rest (i + 1) blocks (cur @ [line]) (chars + (length line + 1)) sl
            = (bs, cur', sl')"
      by (auto simp: Let_def)
    then show ?thesis using Cons.prems(2) by (rule Cons.IH)
  qed
qed

lemma chunkContentByLines_filePath:
  "b \<in> set (chunkContentByLines fp lines lang) \<Longrightarrow> filePath b = fp"
proof -
  assume b: "b \<in> set (chunkContentByLines fp lines lang)"
  obtain bs cur sl where r: "chunkLoop fp lang lines 0 [] [] 0 1 = (bs, cur, sl)"
    by (cases "chunkLoop fp lang lines 0 [] [] 0 1") auto
  then have "\<forall>b \<in> set bs. filePath b = fp" by (rule chunkLoop_filePath) simp
  with b r show ?thesis
    by (auto simp: chunkContentByLines_def split: if_splits dest: emitChunk_filePath)
qed

lemma emitSection_filePath:
  "b \<in> set (emitSection fp sec sl el level txt) \<Longrightarrow> filePath b = fp"
  by (auto simp: emitSection_def Let_def split: if_splits)

lemma markdownLoop_filePath:
  "markdownLoop fp lines i blocks sec sl level tx = (bs, sec', sl', level', tx') \<Longrightarrow>
   \<forall>b \<in> set blocks. filePath b = fp \<Longrightarrow> \<forall>b \<in> set bs. filePath b = fp"
proof (induction lines arbitrary: i blocks sec sl level tx)
  case Nil
  then show ?case by simp
next
  case (Cons line rest)
  show ?case
  proof (cases "headerMatch line")
    case None
    with Cons.prems(1)
    have "markdownLoop fp rest (i + 1) blocks (sec @ [line]) sl level tx
            = (bs, sec', sl', level', tx')" by simp
    then show ?thesis using Cons.prems(2) by (rule Cons.IH)
  next
    case (Some m)
    obtain lvl t where m: "m = (lvl, t)" by (cases m)
    let ?blocks = "if sec \<noteq> [] then blocks @ emitSection fp sec sl i level tx else blocks"
    from Cons.prems(1) Some m
    have "markdownLoop fp rest (i + 1) ?blocks [line] (i + 1) lvl t = (bs, sec', sl', level', tx')"
      by simp
    moreover have "\<forall>b \<in> set ?blocks. filePath b = fp"
      using Cons.prems(2) by (auto dest: emitSection_filePath)
    ultimately show ?thesis by (rule Cons.IH)
  qed
qed

lemma parseMarkdownContent_filePath:
  "b \<in> set (parseMarkdownContent fp lines) \<Longrightarrow> filePath b = fp"
proof -
  assume b: "b \<in> set (parseMarkdownContent fp lines)"
  obtain bs sec sl level tx where r: "markdownLoop fp lines 0 [] [] 1 0 [] = (bs, sec, sl, level, tx)"
    by (cases "markdownLoop fp lines 0 [] [] 1 0 []") auto
  then have "\<forall>b \<in> set bs. filePath b = fp" by (rule markdownLoop_filePath) simp
  with b r show ?thesis
    by (auto simp: parseMarkdownContent_def split: if_splits dest: emitSection_filePath)
qed

lemma parseContent_filePath: "b \<in> set (parseContent fp c) \<Longrightarrow> filePath b = fp"
  by (auto simp: parseContent_def Let_def split: if_splits
           dest: parseMarkdownContent_filePath chunkContentByLines_filePath)

lemma parseFile_filePath: "b \<in> set (parseFile env fp contentArg) \<Longrightarrow> filePath b = fp"
  by (auto simp: parseFile_def Let_def split: if_splits option.splits
           dest: parseContent_filePath parseWithTreeSitter_filePath)


text \<open>The points of the store whose payload names the path \<open>fp\<close>.\<close>

definition pathPoints :: "string \<Rightarrow> World \<Rightarrow> QPoint list" where
  "pathPoints fp w =
     (case collection w of
        None \<Rightarrow> []
      | Some c \<Rightarrow> filter (\<lambda>q. pFilePath (qPayload q) = fp) (points c))"

text \<open>When no request fails, embedding returns and the two store requests take effect.\<close>

lemma embedLoop_no_fault:
  "embedFaults w = [] \<Longrightarrow> \<exists>embeddings. embedLoop env w remaining acc = (Inr embeddings, w)"
proof (induction env w remaining acc rule: embedLoop.induct)
  case (1 env w remainingTexts allEmbeddings)
  show ?case
    using "1.prems" "1.IH"
    by (subst embedLoop.simps)
       (auto simp: embedBatchWithRetries_no_fault split: prod.splits)
qed

lemma createEmbeddings_no_fault:
  "embedFaults w = [] \<Longrightarrow> \<exists>embeddings. createEmbeddings env w texts = (Inr embeddings, w)"
  by (simp add: createEmbeddings_def embedLoop_no_fault)

lemma request_no_fault: "storeFaults w = [] \<Longrightarrow> request w = (False, w)"
  by (cases w) (simp add: request_def)

lemma deletePointsByFilePath_no_fault:
  "collection w = Some c \<Longrightarrow> storeFaults w = [] \<Longrightarrow>
   deletePointsByFilePath fp w =
     (Inr (), w\<lparr>collection :=
                 Some (c\<lparr>points := filter (\<lambda>q. pFilePath (qPayload q) \<noteq> fp) (points c)\<rparr>)\<rparr>)"
  by (simp add: deletePointsByFilePath_def deleteByFilter_def request_no_fault)

lemma upsertPoints_no_fault:
  "collection w = Some c \<Longrightarrow> storeFaults w = [] \<Longrightarrow> ps \<noteq> [] \<Longrightarrow>
   upsertPoints ps w =
     (Inr (), w\<lparr>collection :=
                 Some (c\<lparr>points := foldl (\<lambda>qs p. upsertPoint p qs) (points c) (map toQPoint ps)\<rparr>)\<rparr>)"
  by (simp add: upsertPoints_def upsert_def request_no_fault)

text \<open>
  Upserting points of one path with pairwise different ids into a store that holds no
  point of that path with one of these ids adds exactly these points to the path.
\<close>

lemma upsertPoint_filter:
  "P p \<Longrightarrow> \<forall>q \<in> set qs. P q \<longrightarrow> qId q \<noteq> qId p \<Longrightarrow>
   set (filter P (upsertPoint p qs)) = insert p (set (filter P qs)) \<and>
   length (filter P (upsertPoint p qs)) = Suc (length (filter P qs))"
  by (induction qs) auto

lemma foldl_upsertPoint_filter:
  "\<forall>p \<in> set ps. P p \<Longrightarrow> distinct (map qId ps) \<Longrightarrow>
   \<forall>q \<in> set qs. P q \<longrightarrow> qId q \<notin> qId ` set ps \<Longrightarrow>
   set (filter P (foldl (\<lambda>qs p. upsertPoint p qs) qs ps)) = set (filter P qs) \<union> set ps \<and>
   length (filter P (foldl (\<lambda>qs p. upsertPoint p qs) qs ps)) = length (filter P qs) + length ps"
proof (induction ps arbitrary: qs)
  case Nil
  then show ?case by simp
next
  case (Cons p ps)
  have p: "P p" using Cons.prems(1) by simp
  have fresh: "\<forall>q \<in> set qs. P q \<longrightarrow> qId q \<noteq> qId p" using Cons.prems(3) by auto
  note step = upsertPoint_filter[OF p fresh]
  have "\<forall>q \<in> set (upsertPoint p qs). P q \<longrightarrow> qId q \<notin> qId ` set ps"
  proof (intro ballI impI)
    fix q assume "q \<in> set (upsertPoint p qs)" "P q"
    then have "q \<in> set (filter P (upsertPoint p qs))" by simp
    then have "q = p \<or> (q \<in> set qs \<and> P q)" using step by auto
    then show "qId q \<notin> qId ` set ps"
      using Cons.prems(2,3) by auto
  qed
  from Cons.IH[OF _ _ this] Cons.prems(1,2) step show ?case by auto
qed

lemma vectorPoints_payloads:
  "map (\<lambda>q. (qId q, qPayload q)) (map toQPoint (vectorPoints bs embeddings)) =
   map (\<lambda>b. (idC b, sanitizePayload b)) bs"
  by (rule nth_equalityI) (simp_all add: vectorPoints_def toQPoint_def)

lemma vectorPoints_length [simp]: "length (vectorPoints bs embeddings) = length bs"
  by (simp add: vectorPoints_def)

text \<open>
  Claim C1, amended. Let an \<open>add\<close> or \<open>change\<close> callback run for a path while the
  collection exists and no request to the store or to the embedding provider fails, and
  let the blocks of the new chunking have pairwise different ids. If the new chunking has
  at least one block, then afterwards the points stored for the path are exactly the
  points of these blocks, one for each block with the block's id and payload, and as many
  as there are blocks, whatever was stored for the path before: a file that goes from
  five blocks to two leaves two points. If the new chunking has no block, the callback
  leaves the store as it was.
\<close>

theorem handleFileChange_replaces_points:
  assumes "changeType \<noteq> Unlink"
    and "collection w \<noteq> None" and "storeFaults w = []" and "embedFaults w = []"
    and "distinct (map idC (parseFile env fp None))"
  shows "if parseFile env fp None = []
         then onFileChange env fp changeType w = w
         else (\<lambda>q. (qId q, qPayload q)) ` set (pathPoints fp (onFileChange env fp changeType w)) =
                (\<lambda>b. (idC b, sanitizePayload b)) ` set (parseFile env fp None) \<and>
              length (pathPoints fp (onFileChange env fp changeType w)) =
                length (parseFile env fp None)"
proof (cases "parseFile env fp None = []")
  case True
  with assms(1) show ?thesis by (simp add: onFileChange_def handleFileChange_def)
next
  case False
  define blocks where "blocks = parseFile env fp None"
  define P :: "QPoint \<Rightarrow> bool" where "P = (\<lambda>q. pFilePath (qPayload q) = fp)"
  from assms(2) obtain c where c: "collection w = Some c" by auto
  define c1 where "c1 = c\<lparr>points := filter (\<lambda>q. pFilePath (qPayload q) \<noteq> fp) (points c)\<rparr>"
  define w1 where "w1 = w\<lparr>collection := Some c1\<rparr>"
  have del: "deletePointsByFilePath fp w = (Inr (), w1)"
    using c assms(3) by (simp add: deletePointsByFilePath_no_fault w1_def c1_def)
  have w1: "collection w1 = Some c1" "storeFaults w1 = []" "embedFaults w1 = []"
    using assms(3,4) by (simp_all add: w1_def)
  obtain embeddings where emb: "createEmbeddings env w1 (map content blocks) = (Inr embeddings, w1)"
    using createEmbeddings_no_fault[OF w1(3)] by blast
  define ps where "ps = map toQPoint (vectorPoints blocks embeddings)"
  have ne: "vectorPoints blocks embeddings \<noteq> []"
    using False by (simp add: blocks_def vectorPoints_def)
  have pb: "processBatch env w1 blocks =
              (Inr (), w1\<lparr>collection :=
                 Some (c1\<lparr>points := foldl (\<lambda>qs p. upsertPoint p qs) (points c1) ps\<rparr>)\<rparr>)"
    using emb upsertPoints_no_fault[OF w1(1,2) ne] by (simp add: processBatch_def ps_def)
  have after: "pathPoints fp (onFileChange env fp changeType w) =
                 filter P (foldl (\<lambda>qs p. upsertPoint p qs) (points c1) ps)"
    using assms(1) False del pb
    by (simp add: onFileChange_def handleFileChange_def blocks_def[symmetric] pathPoints_def P_def)
  have pairs: "map (\<lambda>q. (qId q, qPayload q)) ps = map (\<lambda>b. (idC b, sanitizePayload b)) blocks"
    unfolding ps_def by (rule vectorPoints_payloads)
  have ids: "map qId ps = map idC blocks"
    using arg_cong[OF pairs, of "map fst"] by (simp add: comp_def)
  have payloads: "map qPayload ps = map sanitizePayload blocks"
    using arg_cong[OF pairs, of "map snd"] by (simp add: comp_def)
  have "\<forall>b \<in> set blocks. pFilePath (sanitizePayload b) = fp"
    by (auto simp: blocks_def sanitizePayload_def dest: parseFile_filePath)
  then have "\<forall>x \<in> set (map sanitizePayload blocks). pFilePath x = fp" by simp
  then have "\<forall>x \<in> set (map qPayload ps). pFilePath x = fp" by (simp only: payloads)
  then have allP: "\<forall>p \<in> set ps. P p" by (simp add: P_def)
  have dist: "distinct (map qId ps)" using assms(5) by (simp add: ids blocks_def)
  have none: "filter P (points c1) = []" by (simp add: c1_def P_def)
  then have fresh: "\<forall>q \<in> set (points c1). P q \<longrightarrow> qId q \<notin> qId ` set ps"
    by (auto simp: filter_empty_conv)
  from foldl_upsertPoint_filter[OF allP dist fresh] none
  have "set (filter P (foldl (\<lambda>qs p. upsertPoint p qs) (points c1) ps)) = set ps"
    and "length (filter P (foldl (\<lambda>qs p. upsertPoint p qs) (points c1) ps)) = length ps"
    by simp_all
  moreover have "(\<lambda>q. (qId q, qPayload q)) ` set ps = (\<lambda>b. (idC b, sanitizePayload b)) ` set blocks"
    using arg_cong[OF pairs, of set] by simp
  moreover have "length ps = length blocks" by (simp add: ps_def)
  ultimately show ?thesis using False after by (simp add: blocks_def)
qed


text \<open>
  A store that holds one point for \<open>/repo/a.c\<close>, and the environment in which that file
  has the content \<open>c\<close> and structural extraction finds no capture, so that the chunking
  is line-based.
\<close>

definition stalePoint :: QPoint where
  "stalePoint =
     \<lparr> qId = ''0f3a9c1e-77b2-4d10-a5c8-1b2e3d4f5a6b'', qVector = Some [1],
       qPayload = \<lparr> pFilePath = ''/repo/a.c'',
                    pContent = ''static int total(int a, int b, int c) { return a + b + c; }'',
                    pLanguage = ''cpp'', pStartLine = 1, pEndLine = 1, pType = Function,
                    pName = None,
                    pMetadata = \<lparr> fileExtension = ''.c'', lineCount = 1, charCount = 58,
                                  astNode = None, captureType = None,
                                  parsingMethod = LineBased \<rparr> \<rparr> \<rparr>"

definition staleWorld :: World where
  "staleWorld =
     \<lparr> collection = Some \<lparr> vectorsSize = VECTOR_SIZE, points = [stalePoint] \<rparr>,
       storeFaults = [], embedFaults = [] \<rparr>"

definition fileEnv :: "string \<Rightarrow> Env" where
  "fileEnv c =
     \<lparr> readFile = (\<lambda>p. if p = ''/repo/a.c'' then Some c else None),
       statSize = (\<lambda>p. if p = ''/repo/a.c'' then Some (length c) else None),
       query = (\<lambda>p c. Some []),
       readdir = (\<lambda>p. None), ignores = (\<lambda>p. False),
       embedText = (\<lambda>s. [real (length s)]), similarity = (\<lambda>u v. 1) \<rparr>"

lemma ext_a_c: "toLowerCase (extname ''/repo/a.c'') = ''.c''"
  by (simp add: toLowerCase_def extname_def basename_def lowerChar_def Let_def)

lemma languageOf_c: "languageOf ''.c'' = Some ''cpp''"
  by (simp add: languageOf_def EXTENSION_TO_LANGUAGE_def SUPPORTED_EXTENSIONS_def)

lemma c_in_extensions: "''.c'' \<in> set extensions"
  by (simp add: extensions_def)

lemma parseFile_fileEnv:
  "parseFile (fileEnv c) ''/repo/a.c'' None = chunkContentByLines ''/repo/a.c'' (splitOn CHR 0x0A c) ''cpp''"
  by (simp add: parseFile_def parseWithTreeSitter_def parseContent_def fileEnv_def Let_def
        ext_a_c languageOf_c c_in_extensions)

text \<open>
  Claim C1, as stated, fails for the block count zero: when the file is rewritten to the
  ten characters \<open>int total;\<close> its chunking has no block (the only chunk is below the
  minimum of 50 characters), \<open>handleFileChange\<close> then neither deletes nor upserts, and the
  point of the earlier version stays in the store.
\<close>

theorem stale_points_survive_empty_chunking:
  "parseFile (fileEnv ''int total;'') ''/repo/a.c'' None = [] \<and>
   pathPoints ''/repo/a.c'' (onFileChange (fileEnv ''int total;'') ''/repo/a.c'' Change staleWorld) =
     [stalePoint]"
proof -
  have "parseFile (fileEnv ''int total;'') ''/repo/a.c'' None = []"
    by (simp add: parseFile_fileEnv chunkContentByLines_def emitChunk_def trim_def
          isWhitespace_def MIN_BLOCK_CHARS_def MAX_BLOCK_CHARS_def Let_def)
  then show ?thesis
    by (simp add: onFileChange_def handleFileChange_def pathPoints_def staleWorld_def
          stalePoint_def)
qed

theorem handleFileChange_replaces_points_witness:
  "parseFile (fileEnv ''static int total(int a, int b) { return a + b + 1000; }'') ''/repo/a.c'' None =
     [createCodeBlock ''/repo/a.c'' ''static int total(int a, int b) { return a + b + 1000; }'' ''cpp'' 1 1 None] \<and>
   length (pathPoints ''/repo/a.c''
     (onFileChange (fileEnv ''static int total(int a, int b) { return a + b + 1000; }'')
        ''/repo/a.c'' Change staleWorld)) = 1"
proof -
  let ?c = "''static int total(int a, int b) { return a + b + 1000; }''"
  have blocks: "parseFile (fileEnv ?c) ''/repo/a.c'' None =
                  [createCodeBlock ''/repo/a.c'' ?c ''cpp'' 1 1 None]"
    by (simp add: parseFile_fileEnv chunkContentByLines_def emitChunk_def trim_def
          isWhitespace_def MIN_BLOCK_CHARS_def MAX_BLOCK_CHARS_def Let_def)
  have w: "collection staleWorld \<noteq> None" "storeFaults staleWorld = []"
    "embedFaults staleWorld = []"
    by (simp_all add: staleWorld_def)
  have "Change \<noteq> Unlink" by simp
  from handleFileChange_replaces_points[OF this w, of "fileEnv ?c" "''/repo/a.c''"] blocks
  show ?thesis by simp
qed

end
